theory Spec2Isabelle
  imports Complex_Main "HOL-Library.Char_ord" "HOL-Library.List_Lexorder"
    "HOL-Library.Product_Lexorder"
begin

section \<open>Values, errors and the column catalog\<close>

text \<open>
  The module \<^verbatim>\<open>datasetutils.py\<close> cleans sensor readings held in pandas data frames.
  A cell of a frame is either a float64 or a Python string. A float64 is modelled by the
  rational number it denotes, or \<open>NaN\<close>, which is pandas' missing-value marker; rounding
  and the infinities are outside the model.
\<close>

datatype float64 = Fin rat | NaN

datatype cell = Flt float64 | Str string

text \<open>The three type objects that occur as values of \<^verbatim>\<open>keyword_type_map\<close>.\<close>

datatype dtype = Float64 | PyObject | PyStr

datatype error =
    KeyError string
  | ValueError string
  | TypeError
  | AttributeError
  | NameError string
  | OSError
  | ParserError

definition keyword_type_map :: "string \<rightharpoonup> dtype" where
  "keyword_type_map = map_of
    [(''unixtimestamp'', Float64),
     (''hhmmss'', PyObject),
     (''R_BauBGb-P_SUM'', Float64),
     (''E_GLOBAL'', Float64),
     (''T_AMB'', Float64),
     (''P_AIR'', Float64),
     (''YYYYMMDD'', PyStr),
     (''AEZ-P_SUM'', Float64),
     (''R_BauTGb-P_SUM'', Float64),
     (''PV_SolarLog_30kW-P_SUM'', Float64),
     (''PV_120kW-P_SUM'', Float64),
     (''R_BauBGa-P_SUM'', Float64),
     (''R_Bau_TGa-P_SUM'', Float64),
     (''E_BauXa-P_SUM'', Float64),
     (''E_BauXb-P_SUM'', Float64)]"

definition value_limits :: "string \<rightharpoonup> rat \<times> rat" where
  "value_limits = map_of
    [(''AEZ-P_SUM'', (5, 75)),
     (''R_BauBGa-P_SUM'', (5, 60)),
     (''R_BauBGb-P_SUM'', (5, 40)),
     (''R_Bau_TGa-P_SUM'', (25, 250)),
     (''R_BauTGb-P_SUM'', (35, 275)),
     (''PV_120kW-P_SUM'', (0, 120))]"

section \<open>Python strings\<close>

fun startswith :: "string \<Rightarrow> string \<Rightarrow> bool" where
  "startswith s [] = True"
| "startswith [] (p # ps) = False"
| "startswith (c # s) (p # ps) = (c = p \<and> startswith s ps)"

text \<open>\<open>is_substring p s\<close> is Python's \<^verbatim>\<open>p in s\<close> on strings.\<close>

fun is_substring :: "string \<Rightarrow> string \<Rightarrow> bool" where
  "is_substring p [] = (p = [])"
| "is_substring p (c # s) = (startswith (c # s) p \<or> is_substring p s)"

definition endswith :: "string \<Rightarrow> string \<Rightarrow> bool" where
  "endswith s suffix = startswith (rev s) (rev suffix)"

text \<open>\<open>slice a b s\<close> is \<^verbatim>\<open>s[a:b]\<close> for \<open>0 \<le> a \<le> b\<close>; it never fails, a short string
  gives a short slice.\<close>

definition slice :: "nat \<Rightarrow> nat \<Rightarrow> string \<Rightarrow> string" where
  "slice a b s = take (b - a) (drop a s)"

text \<open>The number a string of decimal digits denotes, \<open>None\<close> when a character is no
  digit; \<open>acc\<close> is the value of the digits read so far.\<close>

fun digit_of :: "char \<Rightarrow> nat option" where
  "digit_of c =
     (if CHR ''0'' \<le> c \<and> c \<le> CHR ''9'' then Some (of_char c - 48) else None)"

fun decimal :: "nat \<Rightarrow> string \<Rightarrow> nat option" where
  "decimal acc [] = Some acc"
| "decimal acc (c # s) =
     (case digit_of c of None \<Rightarrow> None | Some k \<Rightarrow> decimal (10 * acc + k) s)"

section \<open>Data frames\<close>

text \<open>
  A frame has an ordered list of column labels and a list of rows; every row carries its
  index label and gives a cell for each column label. What a row holds outside the frame's
  columns is of no concern; where pandas aligns frames, those cells are missing, and
  \<open>restrict_row\<close> makes them so.
\<close>

type_synonym row = "string \<Rightarrow> cell"

record dataframe =
  columns :: "string list"
  rows :: "(nat \<times> row) list"

text \<open>\<^verbatim>\<open>pd.DataFrame()\<close>\<close>

definition DataFrame :: dataframe where
  "DataFrame = \<lparr>columns = [], rows = []\<rparr>"

text \<open>The table of a frame: its cells row by row, in the order of its columns.\<close>

definition cells :: "dataframe \<Rightarrow> cell list list" where
  "cells df = map (\<lambda>ir. map (snd ir) (columns df)) (rows df)"

text \<open>The index of a frame: the labels of its rows.\<close>

definition labels :: "dataframe \<Rightarrow> nat list" where
  "labels df = map fst (rows df)"

definition isna :: "cell \<Rightarrow> bool" where
  "isna c = (c = Flt NaN)"

definition restrict_row :: "string list \<Rightarrow> row \<Rightarrow> row" where
  "restrict_row cols r = (\<lambda>c. if c \<in> set cols then r c else Flt NaN)"

text \<open>
  What \<^verbatim>\<open>pd.read_csv\<close> made of a file: the header and the parsed fields of each line,
  in the order of the header. A line with fewer fields than the header is filled up with
  missing values. The rows of the frame are labelled \<open>0, 1, 2, \<dots>\<close>.
\<close>

record raw_table =
  csv_header :: "string list"
  csv_lines :: "cell list list"

definition row_of_line :: "string list \<Rightarrow> cell list \<Rightarrow> row" where
  "row_of_line hdr cs = (\<lambda>c. case map_of (zip hdr cs) c of None \<Rightarrow> Flt NaN | Some x \<Rightarrow> x)"

definition read_csv :: "raw_table \<Rightarrow> dataframe" where
  "read_csv t = \<lparr>columns = csv_header t,
                 rows = enumerate 0 (map (row_of_line (csv_header t)) (csv_lines t))\<rparr>"

text \<open>\<^verbatim>\<open>df[col_of_interest]\<close>: a \<^verbatim>\<open>KeyError\<close> when a label is not a column of the frame.\<close>

definition select_columns :: "dataframe \<Rightarrow> string list \<Rightarrow> error + dataframe" where
  "select_columns df cols =
     (case filter (\<lambda>c. c \<notin> set (columns df)) cols of
        c # _ \<Rightarrow> Inl (KeyError c)
      | [] \<Rightarrow> Inr \<lparr>columns = cols, rows = map (apsnd (restrict_row cols)) (rows df)\<rparr>)"

definition applymap :: "(cell \<Rightarrow> cell) \<Rightarrow> dataframe \<Rightarrow> dataframe" where
  "applymap f df = df\<lparr>rows := map (apsnd (\<lambda>r. f \<circ> r)) (rows df)\<rparr>"

text \<open>\<^verbatim>\<open>df.dropna()\<close> keeps the rows with no missing value in any column; labels are kept.\<close>

definition complete_row :: "string list \<Rightarrow> row \<Rightarrow> bool" where
  "complete_row cols r = list_all (\<lambda>c. \<not> isna (r c)) cols"

definition dropna :: "dataframe \<Rightarrow> dataframe" where
  "dropna df = df\<lparr>rows := filter (\<lambda>ir. complete_row (columns df) (snd ir)) (rows df)\<rparr>"

text \<open>\<^verbatim>\<open>df[col]\<close> as the list of the column's cells, and \<^verbatim>\<open>df[col] = values\<close>.\<close>

definition get_column :: "dataframe \<Rightarrow> string \<Rightarrow> error + cell list" where
  "get_column df col =
     (if col \<in> set (columns df) then Inr (map (\<lambda>ir. snd ir col) (rows df))
      else Inl (KeyError col))"

definition set_column :: "dataframe \<Rightarrow> string \<Rightarrow> cell list \<Rightarrow> dataframe" where
  "set_column df col vs =
     \<lparr>columns = (if col \<in> set (columns df) then columns df else columns df @ [col]),
      rows = map (\<lambda>(ir, v). (fst ir, (snd ir)(col := v))) (zip (rows df) vs)\<rparr>"

fun sequence_err :: "(error + 'a) list \<Rightarrow> error + 'a list" where
  "sequence_err [] = Inr []"
| "sequence_err (x # xs) =
     (case x of
        Inl e \<Rightarrow> Inl e
      | Inr v \<Rightarrow> (case sequence_err xs of Inl e \<Rightarrow> Inl e | Inr vs \<Rightarrow> Inr (v # vs)))"

text \<open>
  \<^verbatim>\<open>Series.astype\<close>. Two functions of the Python runtime are parameters of the model:
  \<open>fmt\<close>, the text of a float (\<^verbatim>\<open>str(x)\<close>, \<^verbatim>\<open>"{}".format(x)\<close>), and \<open>flt\<close>, the float
  that \<^verbatim>\<open>float(s)\<close> reads from a string, \<open>None\<close> when it raises \<^verbatim>\<open>ValueError\<close>.
\<close>

fun astype_cell :: "(float64 \<Rightarrow> string) \<Rightarrow> (string \<Rightarrow> float64 option) \<Rightarrow> dtype \<Rightarrow> cell
    \<Rightarrow> error + cell" where
  "astype_cell fmt flt Float64 (Flt x) = Inr (Flt x)"
| "astype_cell fmt flt Float64 (Str s) =
     (case flt s of None \<Rightarrow> Inl (ValueError s) | Some x \<Rightarrow> Inr (Flt x))"
| "astype_cell fmt flt PyStr (Flt x) = Inr (Str (fmt x))"
| "astype_cell fmt flt PyStr (Str s) = Inr (Str s)"
| "astype_cell fmt flt PyObject c = Inr c"

definition astype :: "(float64 \<Rightarrow> string) \<Rightarrow> (string \<Rightarrow> float64 option) \<Rightarrow> dtype \<Rightarrow> cell list
    \<Rightarrow> error + cell list" where
  "astype fmt flt t vs = sequence_err (map (astype_cell fmt flt t) vs)"

text \<open>\<^verbatim>\<open>df[col] < x\<close> and \<^verbatim>\<open>df[col] > x\<close>: a comparison with a missing value is false, a
  string against a number raises \<^verbatim>\<open>TypeError\<close>.\<close>

fun cell_lt :: "cell \<Rightarrow> rat \<Rightarrow> error + bool" where
  "cell_lt (Flt (Fin v)) x = Inr (v < x)"
| "cell_lt (Flt NaN) x = Inr False"
| "cell_lt (Str s) x = Inl TypeError"

fun cell_gt :: "cell \<Rightarrow> rat \<Rightarrow> error + bool" where
  "cell_gt (Flt (Fin v)) x = Inr (v > x)"
| "cell_gt (Flt NaN) x = Inr False"
| "cell_gt (Str s) x = Inl TypeError"

definition column_lt :: "dataframe \<Rightarrow> string \<Rightarrow> rat \<Rightarrow> error + bool list" where
  "column_lt df col x =
     (case get_column df col of
        Inl e \<Rightarrow> Inl e
      | Inr vs \<Rightarrow> sequence_err (map (\<lambda>v. cell_lt v x) vs))"

definition column_gt :: "dataframe \<Rightarrow> string \<Rightarrow> rat \<Rightarrow> error + bool list" where
  "column_gt df col x =
     (case get_column df col of
        Inl e \<Rightarrow> Inl e
      | Inr vs \<Rightarrow> sequence_err (map (\<lambda>v. cell_gt v x) vs))"

text \<open>\<^verbatim>\<open>df[mask] = np.nan\<close>: every cell of a row whose flag is true becomes missing.\<close>

definition set_rows_nan :: "dataframe \<Rightarrow> bool list \<Rightarrow> dataframe" where
  "set_rows_nan df flags =
     df\<lparr>rows := map (\<lambda>(ir, b). if b then (fst ir, (\<lambda>_. Flt NaN)) else ir) (zip (rows df) flags)\<rparr>"

section \<open>The functions of the module\<close>

fun apply_type_conversion :: "(float64 \<Rightarrow> string) \<Rightarrow> (string \<Rightarrow> float64 option) \<Rightarrow> dataframe
    \<Rightarrow> string list \<Rightarrow> error + dataframe" where
  "apply_type_conversion fmt flt df [] = Inr df"
| "apply_type_conversion fmt flt df (col # rest) =
     (case get_column df col of
        Inl e \<Rightarrow> Inl e
      | Inr vs \<Rightarrow>
          (case keyword_type_map col of
             None \<Rightarrow> Inl (KeyError col)
           | Some t \<Rightarrow>
               (case astype fmt flt t vs of
                  Inl e \<Rightarrow> Inl e
                | Inr ws \<Rightarrow> apply_type_conversion fmt flt (set_column df col ws) rest)))"

definition format_cell :: "(float64 \<Rightarrow> string) \<Rightarrow> cell \<Rightarrow> string" where
  "format_cell fmt val = (case val of Str s \<Rightarrow> s | Flt x \<Rightarrow> fmt x)"

definition contains_error :: "(float64 \<Rightarrow> string) \<Rightarrow> cell \<Rightarrow> cell" where
  "contains_error fmt val =
     (if is_substring ''err'' (format_cell fmt val) then Flt NaN else val)"

fun apply_limits :: "dataframe \<Rightarrow> string list \<Rightarrow> error + dataframe" where
  "apply_limits df [] = Inr df"
| "apply_limits df (col # rest) =
     (case value_limits col of
        None \<Rightarrow> apply_limits df rest
      | Some (lo, hi) \<Rightarrow>
          (case column_lt df col lo of
             Inl e \<Rightarrow> Inl e
           | Inr lows \<Rightarrow>
               (case column_gt (set_rows_nan df lows) col hi of
                  Inl e \<Rightarrow> Inl e
                | Inr highs \<Rightarrow>
                    apply_limits (set_rows_nan (set_rows_nan df lows) highs) rest)))"

text \<open>
  The five steps that both loaders apply to the frame of one file (lines 97 to 104 and,
  word for word, lines 130 to 137): error tagging, \<^verbatim>\<open>dropna\<close>, type conversion, limits,
  \<^verbatim>\<open>dropna\<close>.
\<close>

definition sanitize :: "(float64 \<Rightarrow> string) \<Rightarrow> (string \<Rightarrow> float64 option) \<Rightarrow> dataframe
    \<Rightarrow> string list \<Rightarrow> error + dataframe" where
  "sanitize fmt flt df col_of_interest =
     (case apply_type_conversion fmt flt (dropna (applymap (contains_error fmt) df))
             col_of_interest of
        Inl e \<Rightarrow> Inl e
      | Inr typed \<Rightarrow>
          (case apply_limits typed col_of_interest of
             Inl e \<Rightarrow> Inl e
           | Inr limited \<Rightarrow> Inr (dropna limited)))"

text \<open>
  \<^verbatim>\<open>series.str[a:b]\<close> on a column of object dtype (which \<^verbatim>\<open>YYYYMMDD\<close> and
  \<^verbatim>\<open>hhmmss\<close> are after the type conversion): the slice of a string, a missing value for
  a cell that is no string; pandas refuses the accessor (\<^verbatim>\<open>AttributeError\<close>) when the
  present values of the column are all floats.
\<close>

definition is_float :: "cell \<Rightarrow> bool" where
  "is_float c = (case c of Flt _ \<Rightarrow> True | Str _ \<Rightarrow> False)"

definition str_slice :: "nat \<Rightarrow> nat \<Rightarrow> cell list \<Rightarrow> error + cell list" where
  "str_slice a b vs =
     (if list_ex (\<lambda>v. \<not> isna v) vs \<and> list_all is_float vs then Inl AttributeError
      else Inr (map (\<lambda>v. case v of Str s \<Rightarrow> Str (slice a b s) | Flt _ \<Rightarrow> Flt NaN) vs))"

text \<open>One line of \<^verbatim>\<open>add_time_columns\<close>:
  \<^verbatim>\<open>df[dst] = df[src].str[a:b].astype(np.float64)\<close>.\<close>

definition time_column :: "(float64 \<Rightarrow> string) \<Rightarrow> (string \<Rightarrow> float64 option) \<Rightarrow> dataframe
    \<Rightarrow> string \<Rightarrow> string \<Rightarrow> nat \<Rightarrow> nat \<Rightarrow> error + dataframe" where
  "time_column fmt flt df dst src a b =
     (case get_column df src of
        Inl e \<Rightarrow> Inl e
      | Inr vs \<Rightarrow>
          (case str_slice a b vs of
             Inl e \<Rightarrow> Inl e
           | Inr ss \<Rightarrow>
               (case astype fmt flt Float64 ss of
                  Inl e \<Rightarrow> Inl e
                | Inr ws \<Rightarrow> Inr (set_column df dst ws))))"

definition add_time_columns :: "(float64 \<Rightarrow> string) \<Rightarrow> (string \<Rightarrow> float64 option) \<Rightarrow> dataframe
    \<Rightarrow> error + dataframe" where
  "add_time_columns fmt flt df =
     (case time_column fmt flt df ''Month'' ''YYYYMMDD'' 4 6 of
        Inl e \<Rightarrow> Inl e
      | Inr df1 \<Rightarrow>
          (case time_column fmt flt df1 ''Day'' ''YYYYMMDD'' 6 8 of
             Inl e \<Rightarrow> Inl e
           | Inr df2 \<Rightarrow> time_column fmt flt df2 ''Hour'' ''hhmmss'' 0 2))"

section \<open>Grouping and concatenation\<close>

text \<open>
  \<^verbatim>\<open>df.groupby(['Hour', 'YYYYMMDD'], as_index=False).mean()\<close>, as the pandas release the
  module is written for computes it (the one that has \<^verbatim>\<open>applymap\<close> and leaves columns
  that have no mean out of the result). \<^verbatim>\<open>Hour\<close> is a float64 column and
  \<^verbatim>\<open>YYYYMMDD\<close> a column of strings when the module calls it, so a key is a number and
  a string; a row with a missing key value belongs to no group. The groups come sorted by
  key, the key columns come first, then the float64 columns (\<open>numeric\<close> tells which
  columns these are) with the mean of their present values, and the rows are labelled
  anew.
\<close>

definition group_key :: "row \<Rightarrow> (rat \<times> string) option" where
  "group_key r =
     (case r ''Hour'' of
        Flt (Fin h) \<Rightarrow> (case r ''YYYYMMDD'' of Str d \<Rightarrow> Some (h, d) | Flt _ \<Rightarrow> None)
      | Flt NaN \<Rightarrow> None
      | Str _ \<Rightarrow> None)"

fun present_values :: "cell list \<Rightarrow> rat list" where
  "present_values [] = []"
| "present_values (Flt (Fin x) # vs) = x # present_values vs"
| "present_values (v # vs) = present_values vs"

definition mean :: "cell list \<Rightarrow> cell" where
  "mean vs =
     (let xs = present_values vs
      in if xs = [] then Flt NaN else Flt (Fin (sum_list xs / of_nat (length xs))))"

definition group_row :: "string list \<Rightarrow> row list \<Rightarrow> rat \<times> string \<Rightarrow> row" where
  "group_row vcols rs k =
     (\<lambda>c. if c = ''Hour'' then Flt (Fin (fst k))
          else if c = ''YYYYMMDD'' then Str (snd k)
          else if c \<in> set vcols
            then mean (map (\<lambda>r. r c) (filter (\<lambda>r. group_key r = Some k) rs))
          else Flt NaN)"

definition groupby_mean :: "(string \<Rightarrow> bool) \<Rightarrow> dataframe \<Rightarrow> error + dataframe" where
  "groupby_mean numeric df =
     (if ''Hour'' \<notin> set (columns df) then Inl (KeyError ''Hour'')
      else if ''YYYYMMDD'' \<notin> set (columns df) then Inl (KeyError ''YYYYMMDD'')
      else
        let rs = map snd (rows df);
            keys = sort (remdups (List.map_filter group_key rs));
            vcols = filter (\<lambda>c. c \<noteq> ''Hour'' \<and> c \<noteq> ''YYYYMMDD'' \<and> numeric c) (columns df)
        in Inr \<lparr>columns = [''Hour'', ''YYYYMMDD''] @ vcols,
                rows = enumerate 0 (map (group_row vcols rs) keys)\<rparr>)"

text \<open>The float64 columns of a frame that went through \<^verbatim>\<open>apply_type_conversion\<close> and
  \<^verbatim>\<open>add_time_columns\<close>.\<close>

definition float_column :: "string \<Rightarrow> bool" where
  "float_column c =
     (c = ''Month'' \<or> c = ''Day'' \<or> c = ''Hour'' \<or> keyword_type_map c = Some Float64)"

text \<open>\<^verbatim>\<open>pd.concat([a, b], ignore_index=...)\<close>: the columns of \<open>a\<close>, then the new ones
  of \<open>b\<close>; the rows of \<open>a\<close>, then those of \<open>b\<close>, each missing where its frame had no
  column; the labels are kept, or replaced by \<open>0, 1, 2, \<dots>\<close>.\<close>

definition pd_concat :: "dataframe \<Rightarrow> dataframe \<Rightarrow> bool \<Rightarrow> dataframe" where
  "pd_concat a b ignore_index =
     (let rs = map (apsnd (restrict_row (columns a))) (rows a)
             @ map (apsnd (restrict_row (columns b))) (rows b)
      in \<lparr>columns = columns a @ filter (\<lambda>c. c \<notin> set (columns a)) (columns b),
          rows = (if ignore_index then enumerate 0 (map snd rs) else rs)\<rparr>)"

section \<open>The loaders\<close>

text \<open>
  A directory is the list \<^verbatim>\<open>os.listdir\<close> returns, each name with what opening and
  parsing that file gives. The file system maps a path to its directory, \<open>None\<close> when
  \<^verbatim>\<open>os.listdir\<close> raises. Writing the progress line is left out.
\<close>

datatype file_content = Unreadable | Unparsable | Csv raw_table

type_synonym directory = "(string \<times> file_content) list"

definition read_selected :: "file_content \<Rightarrow> string list \<Rightarrow> error + dataframe" where
  "read_selected f col_of_interest =
     (case f of
        Unreadable \<Rightarrow> Inl OSError
      | Unparsable \<Rightarrow> Inl ParserError
      | Csv t \<Rightarrow> select_columns (read_csv t) col_of_interest)"

text \<open>The body of the loop of \<^verbatim>\<open>load_dataset_from_directory_partial\<close> up to
  \<^verbatim>\<open>pd.concat\<close>, and that of \<^verbatim>\<open>load_dataset_from_directory_partial_average_hours\<close>.\<close>

definition clean_file :: "(float64 \<Rightarrow> string) \<Rightarrow> (string \<Rightarrow> float64 option) \<Rightarrow> string list
    \<Rightarrow> file_content \<Rightarrow> error + dataframe" where
  "clean_file fmt flt col_of_interest f =
     (case read_selected f col_of_interest of
        Inl e \<Rightarrow> Inl e
      | Inr df_tmp \<Rightarrow> sanitize fmt flt df_tmp col_of_interest)"

definition average_hours :: "(float64 \<Rightarrow> string) \<Rightarrow> (string \<Rightarrow> float64 option) \<Rightarrow> dataframe
    \<Rightarrow> error + dataframe" where
  "average_hours fmt flt df =
     (case add_time_columns fmt flt df of
        Inl e \<Rightarrow> Inl e
      | Inr timed \<Rightarrow> groupby_mean float_column timed)"

definition clean_file_average_hours :: "(float64 \<Rightarrow> string) \<Rightarrow> (string \<Rightarrow> float64 option)
    \<Rightarrow> string list \<Rightarrow> file_content \<Rightarrow> error + dataframe" where
  "clean_file_average_hours fmt flt col_of_interest f =
     (case clean_file fmt flt col_of_interest f of
        Inl e \<Rightarrow> Inl e
      | Inr df_tmp \<Rightarrow> average_hours fmt flt df_tmp)"

text \<open>
  The loop over the directory, which both loaders share: a name that does not end in
  \<^verbatim>\<open>.csv\<close> is skipped, the frame of every other file is appended to \<^verbatim>\<open>big_df\<close>
  with new labels. The first component of the result lists the files opened so far, in
  order; an exception ends the loop with no frame.
\<close>

fun load_loop :: "(file_content \<Rightarrow> error + dataframe) \<Rightarrow> directory \<Rightarrow> string list \<Rightarrow> dataframe
    \<Rightarrow> string list \<times> (error + dataframe)" where
  "load_loop body [] opened big_df = (opened, Inr big_df)"
| "load_loop body ((filename, f) # rest) opened big_df =
     (if endswith filename ''.csv'' then
        (case body f of
           Inl e \<Rightarrow> (opened @ [filename], Inl e)
         | Inr df_tmp \<Rightarrow>
             load_loop body rest (opened @ [filename]) (pd_concat big_df df_tmp True))
      else load_loop body rest opened big_df)"

definition load_dataset_from_directory_partial :: "(float64 \<Rightarrow> string)
    \<Rightarrow> (string \<Rightarrow> float64 option) \<Rightarrow> (string \<rightharpoonup> directory) \<Rightarrow> string \<Rightarrow> string list
    \<Rightarrow> string list \<times> (error + dataframe)" where
  "load_dataset_from_directory_partial fmt flt fs d col_of_interest =
     (case fs d of
        None \<Rightarrow> ([], Inl OSError)
      | Some directory_list \<Rightarrow>
          load_loop (clean_file fmt flt col_of_interest) directory_list [] DataFrame)"

definition load_dataset_from_directory_partial_average_hours :: "(float64 \<Rightarrow> string)
    \<Rightarrow> (string \<Rightarrow> float64 option) \<Rightarrow> (string \<rightharpoonup> directory) \<Rightarrow> string \<Rightarrow> string list
    \<Rightarrow> string list \<times> (error + dataframe)" where
  "load_dataset_from_directory_partial_average_hours fmt flt fs d col_of_interest =
     (case fs d of
        None \<Rightarrow> ([], Inl OSError)
      | Some directory_list \<Rightarrow>
          load_loop (clean_file_average_hours fmt flt col_of_interest) directory_list []
            DataFrame)"

fun load_multiple_loop :: "(float64 \<Rightarrow> string) \<Rightarrow> (string \<Rightarrow> float64 option)
    \<Rightarrow> (string \<rightharpoonup> directory) \<Rightarrow> string list \<Rightarrow> string list \<Rightarrow> dataframe
    \<Rightarrow> error + dataframe" where
  "load_multiple_loop fmt flt fs col_of_interest [] df_ret = Inr df_ret"
| "load_multiple_loop fmt flt fs col_of_interest (d # ds) df_ret =
     (case snd (load_dataset_from_directory_partial_average_hours fmt flt fs d
                  col_of_interest) of
        Inl e \<Rightarrow> Inl e
      | Inr df_tmp \<Rightarrow>
          load_multiple_loop fmt flt fs col_of_interest ds (pd_concat df_ret df_tmp False))"

definition load_multiple_datasets_average_hours :: "(float64 \<Rightarrow> string)
    \<Rightarrow> (string \<Rightarrow> float64 option) \<Rightarrow> (string \<rightharpoonup> directory) \<Rightarrow> string list \<Rightarrow> string list
    \<Rightarrow> error + dataframe" where
  "load_multiple_datasets_average_hours fmt flt fs direcotries col_of_interest =
     load_multiple_loop fmt flt fs col_of_interest direcotries DataFrame"

section \<open>Timestamps\<close>

text \<open>
  The names the module binds at top level: its four imports, its two tables and its
  functions. A global name that is neither among them nor a builtin raises
  \<^verbatim>\<open>NameError\<close> where it is evaluated. \<open>utc_strftime\<close> stands for
  \<^verbatim>\<open>datetime.utcfromtimestamp(t).strftime('%Y-%m-%d %H:%M:%S')\<close> of the standard
  library.
\<close>

definition module_globals :: "string list" where
  "module_globals =
     [''np'', ''os'', ''pd'', ''sys'', ''keyword_type_map'', ''value_limits'',
      ''apply_type_conversion'', ''add_time_columns'', ''contains_error'', ''apply_limits'',
      ''load_dataset_from_directory_partial'',
      ''load_dataset_from_directory_partial_average_hours'',
      ''load_multiple_datasets_average_hours'', ''convert_timestamp_to_string'',
      ''get_hour'', ''get_yyyymmdd'', ''load_pickled_sql_data'']"

definition convert_timestamp_to_string :: "(rat \<Rightarrow> error + string) \<Rightarrow> rat \<Rightarrow> error + string" where
  "convert_timestamp_to_string utc_strftime unixtime =
     (if ''datetime'' \<in> set module_globals then utc_strftime (unixtime + 800 + 2639)
      else Inl (NameError ''datetime''))"

section \<open>Notions for stating the properties\<close>

text \<open>The text of a cell holds the instrument's error marker: the test of
  \<^verbatim>\<open>contains_error\<close>.\<close>

definition has_error :: "(float64 \<Rightarrow> string) \<Rightarrow> cell \<Rightarrow> bool" where
  "has_error fmt c = is_substring ''err'' (format_cell fmt c)"

text \<open>What the two comparisons of \<^verbatim>\<open>apply_limits\<close> give for a cell, and the rows they hit: a row
  violates the limits of a column, or of one of a list of columns.\<close>

definition is_below :: "rat \<Rightarrow> cell \<Rightarrow> bool" where
  "is_below lo c = (case c of Flt (Fin v) \<Rightarrow> v < lo | Flt NaN \<Rightarrow> False | Str _ \<Rightarrow> False)"

definition is_above :: "rat \<Rightarrow> cell \<Rightarrow> bool" where
  "is_above hi c = (case c of Flt (Fin v) \<Rightarrow> v > hi | Flt NaN \<Rightarrow> False | Str _ \<Rightarrow> False)"

definition violates :: "string \<Rightarrow> row \<Rightarrow> bool" where
  "violates c r =
     (case value_limits c of
        None \<Rightarrow> False
      | Some (lo, hi) \<Rightarrow> is_below lo (r c) \<or> is_above hi (r c))"

definition out_of_range :: "string list \<Rightarrow> row \<Rightarrow> bool" where
  "out_of_range cols r = list_ex (\<lambda>c. violates c r) cols"

text \<open>What \<^verbatim>\<open>apply_limits\<close> does to one row.\<close>

definition limit_row :: "string list \<Rightarrow> nat \<times> row \<Rightarrow> nat \<times> row" where
  "limit_row cols ir = (if out_of_range cols (snd ir) then (fst ir, (\<lambda>_. Flt NaN)) else ir)"

text \<open>\<open>r'\<close> is \<open>r\<close> with the cells of the columns \<open>cols\<close> converted to their catalog type.\<close>

definition converted :: "(float64 \<Rightarrow> string) \<Rightarrow> (string \<Rightarrow> float64 option) \<Rightarrow> string list
    \<Rightarrow> row \<Rightarrow> row \<Rightarrow> bool" where
  "converted fmt flt cols r r' =
     (\<forall>c. if c \<in> set cols
          then (\<exists>t. keyword_type_map c = Some t \<and> astype_cell fmt flt t (r c) = Inr (r' c))
          else r' c = r c)"




text \<open>What one line of \<^verbatim>\<open>add_time_columns\<close> stores in a row, and what the three lines
  make of a row; the list of columns after assigning to the columns \<open>new\<close>.\<close>

definition time_value :: "(string \<Rightarrow> float64 option) \<Rightarrow> string \<Rightarrow> nat \<Rightarrow> nat \<Rightarrow> row \<Rightarrow> cell" where
  "time_value flt src a b r =
     (case r src of
        Flt _ \<Rightarrow> Flt NaN
      | Str s \<Rightarrow> (case flt (slice a b s) of None \<Rightarrow> Flt NaN | Some x \<Rightarrow> Flt x))"

definition add_time_value :: "(string \<Rightarrow> float64 option) \<Rightarrow> string \<Rightarrow> string \<Rightarrow> nat \<Rightarrow> nat
    \<Rightarrow> nat \<times> row \<Rightarrow> nat \<times> row" where
  "add_time_value flt dst src a b ir = (fst ir, (snd ir)(dst := time_value flt src a b (snd ir)))"

definition timed_row :: "(string \<Rightarrow> float64 option) \<Rightarrow> nat \<times> row \<Rightarrow> nat \<times> row" where
  "timed_row flt ir =
     add_time_value flt ''Hour'' ''hhmmss'' 0 2
       (add_time_value flt ''Day'' ''YYYYMMDD'' 6 8
         (add_time_value flt ''Month'' ''YYYYMMDD'' 4 6 ir))"

definition add_columns :: "string list \<Rightarrow> string list \<Rightarrow> string list" where
  "add_columns cs new = fold (\<lambda>c cs. if c \<in> set cs then cs else cs @ [c]) new cs"







text \<open>The files of a directory that the loaders open, in the order of the listing; the
  columns of every frame the averaging loader makes from a file; a frame that is
  \<^verbatim>\<open>pd.DataFrame()\<close> or has the columns \<open>cs\<close>.\<close>

definition csv_files :: "directory \<Rightarrow> file_content list" where
  "csv_files listing = map snd (filter (\<lambda>e. endswith (fst e) ''.csv'') listing)"

definition hourly_columns :: "string list \<Rightarrow> string list" where
  "hourly_columns cols =
     [''Hour'', ''YYYYMMDD'']
     @ filter (\<lambda>c. c \<noteq> ''Hour'' \<and> c \<noteq> ''YYYYMMDD'' \<and> float_column c)
         (add_columns cols [''Month'', ''Day'', ''Hour''])"

definition empty_or :: "string list \<Rightarrow> dataframe \<Rightarrow> bool" where
  "empty_or cs df = (columns df = [] \<and> rows df = [] \<or> columns df = cs)"


text \<open>The rows of an accumulated frame have no missing value in the columns \<open>cols\<close>, as
  a later \<^verbatim>\<open>pd.concat\<close> sees them.\<close>

definition aligned_complete :: "string list \<Rightarrow> dataframe \<Rightarrow> bool" where
  "aligned_complete cols df =
     list_all (\<lambda>ir. complete_row cols (restrict_row (columns df) (snd ir))) (rows df)"

section \<open>A runtime and files for the examples\<close>

text \<open>
  The examples run the module on concrete files. They read decimal numerals the way
  \<^verbatim>\<open>float\<close> does (\<^verbatim>\<open>float("10.0")\<close> is ten) and print the one float that is
  printed in them.
\<close>

definition example_float :: "string \<Rightarrow> float64 option" where
  "example_float s =
     (let a = takeWhile (\<lambda>c. c \<noteq> CHR ''.'') s; b = drop (Suc (length a)) s
      in if a = [] then None
         else (case (decimal 0 a, decimal 0 b) of
                 (Some x, Some y) \<Rightarrow> Some (Fin (of_nat x + of_nat y / 10 ^ length b))
               | _ \<Rightarrow> None))"

definition example_format :: "float64 \<Rightarrow> string" where
  "example_format x = (if x = Fin 20230615 then ''20230615.0'' else ''nan'')"

text \<open>
  A file of one day with four readings: two good ones in the same hour, one above the
  limit of 75 of \<^verbatim>\<open>AEZ-P_SUM\<close>, and one that the instrument reported as an error.
\<close>

definition day1 :: raw_table where
  "day1 = \<lparr>csv_header = [''AEZ-P_SUM'', ''R_BauBGa-P_SUM'', ''YYYYMMDD'', ''hhmmss''],
           csv_lines =
             [[Str ''10.0'', Flt (Fin 30), Str ''20230615'', Str ''093000''],
              [Str ''20.0'', Flt (Fin 30), Str ''20230615'', Str ''094500''],
              [Str ''80.0'', Flt (Fin 30), Str ''20230615'', Str ''093000''],
              [Str ''err_timeout'', Flt (Fin 30), Str ''20230615'', Str ''093000'']]\<rparr>"

definition day2 :: raw_table where
  "day2 = \<lparr>csv_header = [''AEZ-P_SUM'', ''R_BauBGa-P_SUM'', ''YYYYMMDD'', ''hhmmss''],
           csv_lines =
             [[Flt (Fin 40), Flt (Fin 30), Str ''20230615'', Str ''091500''],
              [Flt (Fin 50), Flt (Fin 30), Str ''20230615'', Str ''101500'']]\<rparr>"

text \<open>A file with a column that the catalog does not know.\<close>

definition annotated :: raw_table where
  "annotated = \<lparr>csv_header = [''AEZ-P_SUM'', ''comment''],
                csv_lines = [[Flt (Fin 10), Str ''ok'']]\<rparr>"

definition example_fs :: "string \<rightharpoonup> directory" where
  "example_fs =
     [''site_a'' \<mapsto> [(''day1.csv'', Csv day1), (''notes.txt'', Unreadable), (''day2.csv'', Csv day2)],
      ''site_b'' \<mapsto> [(''day1.csv'', Csv day1)],
      ''site_c'' \<mapsto> [(''readme.txt'', Unreadable), (''notes.csv'', Csv annotated)],
      ''empty'' \<mapsto> [(''notes.txt'', Unreadable)]]"

definition example_columns :: "string list" where
  "example_columns = [''AEZ-P_SUM'', ''YYYYMMDD'', ''hhmmss'']"

text \<open>The frames of the two files over the example columns, and the first one cleaned.\<close>

definition day1_frame :: dataframe where
  "day1_frame = projr (read_selected (Csv day1) example_columns)"


definition day1_clean :: dataframe where
  "day1_clean = projr (sanitize example_format example_float day1_frame example_columns)"


section \<open>Frames keep their columns\<close>

lemma columns_applymap: "columns (applymap f df) = columns df"
  by (simp add: applymap_def)

lemma columns_dropna: "columns (dropna df) = columns df"
  by (simp add: dropna_def)

lemma columns_set_rows_nan: "columns (set_rows_nan df flags) = columns df"
  by (simp add: set_rows_nan_def)

lemma get_column_Inr: "get_column df col = Inr vs \<Longrightarrow> col \<in> set (columns df)"
  by (simp add: get_column_def split: if_splits)

lemma columns_set_column:
  "col \<in> set (columns df) \<Longrightarrow> columns (set_column df col vs) = columns df"
  by (simp add: set_column_def)

lemma apply_type_conversion_columns:
  "apply_type_conversion fmt flt df cs = Inr df' \<Longrightarrow> columns df' = columns df"
proof (induction cs arbitrary: df)
  case Nil
  then show ?case by simp
next
  case (Cons col cs)
  then show ?case
    by (auto split: sum.splits option.splits dest!: get_column_Inr simp: columns_set_column)
qed

lemma apply_limits_columns: "apply_limits df cs = Inr df' \<Longrightarrow> columns df' = columns df"
proof (induction cs arbitrary: df)
  case Nil
  then show ?case by simp
next
  case (Cons col cs)
  then show ?case
    by (auto split: sum.splits option.splits simp: columns_set_rows_nan)
qed

lemma sanitize_columns: "sanitize fmt flt df cs = Inr df' \<Longrightarrow> columns df' = columns df"
  by (auto simp: sanitize_def columns_dropna columns_applymap split: sum.splits
      dest!: apply_type_conversion_columns apply_limits_columns)

lemma select_columns_columns: "select_columns df cols = Inr d \<Longrightarrow> columns d = cols"
  by (auto simp: select_columns_def split: list.splits)

lemma clean_file_columns: "clean_file fmt flt cols f = Inr df \<Longrightarrow> columns df = cols"
  by (auto simp: clean_file_def read_selected_def split: sum.splits file_content.splits
      dest!: sanitize_columns select_columns_columns)

section \<open>No missing value survives\<close>

lemma dropna_complete:
  "ir \<in> set (rows (dropna df)) \<Longrightarrow> complete_row (columns df) (snd ir)"
  by (simp add: dropna_def)

lemma sanitize_complete:
  assumes "sanitize fmt flt df cs = Inr df'" and "ir \<in> set (rows df')"
  shows "complete_row (columns df) (snd ir)"
  using assms
  by (auto simp: sanitize_def columns_dropna columns_applymap split: sum.splits
      dest!: apply_type_conversion_columns apply_limits_columns dropna_complete)

lemma clean_file_complete:
  "clean_file fmt flt cols f = Inr df \<Longrightarrow> ir \<in> set (rows df) \<Longrightarrow> complete_row cols (snd ir)"
  by (auto simp: clean_file_def read_selected_def split: sum.splits file_content.splits
      dest!: sanitize_complete select_columns_columns)

lemma complete_row_restrict:
  "complete_row cols (restrict_row cs r) \<longleftrightarrow> set cols \<subseteq> set cs \<and> complete_row cols r"
  by (auto simp: complete_row_def restrict_row_def list_all_iff isna_def)

lemma set_enumerate_snd: "snd ` set (enumerate n xs) = set xs"
  by (metis map_snd_enumerate set_map)

lemma aligned_complete_concat:
  assumes "aligned_complete cols a" and "columns b = cols"
    and "\<And>ir. ir \<in> set (rows b) \<Longrightarrow> complete_row cols (snd ir)"
  shows "aligned_complete cols (pd_concat a b ig)"
proof -
  have "complete_row cols (restrict_row (columns (pd_concat a b ig)) r)"
    if "r \<in> snd ` set (rows (pd_concat a b ig))" for r
  proof -
    from that have "r \<in> restrict_row (columns a) ` snd ` set (rows a)
        \<or> r \<in> restrict_row (columns b) ` snd ` set (rows b)"
      by (auto simp: pd_concat_def Let_def set_enumerate_snd image_Un image_image
          split: if_splits)
    then show ?thesis
    proof
      assume "r \<in> restrict_row (columns a) ` snd ` set (rows a)"
      then obtain ir where "ir \<in> set (rows a)" "r = restrict_row (columns a) (snd ir)"
        by auto
      with assms(1) have "complete_row cols r"
        by (auto simp: aligned_complete_def list_all_iff)
      then show ?thesis
        using \<open>r = _\<close> by (auto simp: complete_row_restrict pd_concat_def Let_def)
    next
      assume "r \<in> restrict_row (columns b) ` snd ` set (rows b)"
      then obtain ir where "ir \<in> set (rows b)" "r = restrict_row (columns b) (snd ir)"
        by auto
      with assms(2,3) have "complete_row cols r" "set cols \<subseteq> set (columns b)"
        by (auto simp: complete_row_restrict)
      then show ?thesis
        by (auto simp: complete_row_restrict pd_concat_def Let_def)
    qed
  qed
  then show ?thesis
    by (auto simp: aligned_complete_def list_all_iff)
qed

lemma load_loop_complete:
  assumes "\<And>f df. body f = Inr df \<Longrightarrow> columns df = cols"
    and "\<And>f df ir. body f = Inr df \<Longrightarrow> ir \<in> set (rows df) \<Longrightarrow> complete_row cols (snd ir)"
  shows "aligned_complete cols big \<Longrightarrow> snd (load_loop body listing opened big) = Inr out
    \<Longrightarrow> aligned_complete cols out"
proof (induction listing arbitrary: opened big)
  case Nil
  then show ?case by simp
next
  case (Cons entry listing)
  obtain filename f where entry: "entry = (filename, f)" by (cases entry)
  show ?case
  proof (cases "endswith filename ''.csv''")
    case False
    with Cons entry show ?thesis by simp
  next
    case True
    with Cons.prems(2) entry obtain df_tmp where b: "body f = Inr df_tmp"
      and rest: "snd (load_loop body listing (opened @ [filename])
                   (pd_concat big df_tmp True)) = Inr out"
      by (auto split: sum.splits)
    have "aligned_complete cols (pd_concat big df_tmp True)"
      using aligned_complete_concat[OF Cons.prems(1) assms(1)[OF b]] assms(2)[OF b] by blast
    from Cons.IH[OF this rest] show ?thesis .
  qed
qed

text \<open>
  C3. Whenever \<^verbatim>\<open>load_dataset_from_directory_partial\<close> returns a frame, no row of it has
  a missing value in a column of \<^verbatim>\<open>col_of_interest\<close>.
\<close>

theorem cleaned_batch_no_missing_value:
  assumes "snd (load_dataset_from_directory_partial fmt flt fs d col_of_interest) = Inr big_df"
  shows "\<forall>ir \<in> set (rows big_df). \<forall>c \<in> set col_of_interest. \<not> isna (snd ir c)"
proof -
  from assms obtain listing where
    run: "snd (load_loop (clean_file fmt flt col_of_interest) listing [] DataFrame) = Inr big_df"
    by (auto simp: load_dataset_from_directory_partial_def split: option.splits)
  have "aligned_complete col_of_interest DataFrame"
    by (simp add: aligned_complete_def DataFrame_def)
  then have "aligned_complete col_of_interest big_df"
    using load_loop_complete[where body = "clean_file fmt flt col_of_interest", OF _ _ _ run]
      clean_file_columns clean_file_complete by blast
  then have "\<forall>ir \<in> set (rows big_df). complete_row col_of_interest (snd ir)"
    by (simp add: aligned_complete_def list_all_iff complete_row_restrict)
  then show ?thesis
    by (simp add: complete_row_def list_all_iff)
qed

theorem cleaned_batch_no_missing_value_witness:
  "cells (projr (snd (load_dataset_from_directory_partial example_format example_float
      example_fs ''site_a'' example_columns)))
   = [[Flt (Fin 10), Str ''20230615'', Str ''093000''],
      [Flt (Fin 20), Str ''20230615'', Str ''094500''],
      [Flt (Fin 40), Str ''20230615'', Str ''091500''],
      [Flt (Fin 50), Str ''20230615'', Str ''101500'']]
   \<and> list_all (\<lambda>ir. list_all (\<lambda>c. \<not> isna (snd ir c)) example_columns)
       (rows (projr (snd (load_dataset_from_directory_partial example_format example_float
          example_fs ''site_a'' example_columns))))"
proof -
  let ?res = "snd (load_dataset_from_directory_partial example_format example_float
      example_fs ''site_a'' example_columns)"
  have ok: "\<not> isl ?res"
    by code_simp
  have table: "cells (projr ?res)
     = [[Flt (Fin 10), Str ''20230615'', Str ''093000''],
        [Flt (Fin 20), Str ''20230615'', Str ''094500''],
        [Flt (Fin 40), Str ''20230615'', Str ''091500''],
        [Flt (Fin 50), Str ''20230615'', Str ''101500'']]"
    by code_simp
  from ok have "?res = Inr (projr ?res)"
    by simp
  from cleaned_batch_no_missing_value[OF this] table show ?thesis
    by (simp add: list_all_iff)
qed

section \<open>What the five steps do to a batch\<close>

lemma sequence_err_Inr_D:
  "sequence_err (map f xs) = Inr ys \<Longrightarrow> list_all2 (\<lambda>x y. f x = Inr y) xs ys"
proof (induction xs arbitrary: ys)
  case Nil
  then show ?case by simp
next
  case (Cons x xs)
  then show ?case
    by (auto split: sum.splits)
qed

lemma sequence_err_Inr_I:
  "list_all2 (\<lambda>x y. f x = Inr y) xs ys \<Longrightarrow> sequence_err (map f xs) = Inr ys"
  by (induction xs ys rule: list_all2_induct) auto

lemma sequence_err_Inr:
  "sequence_err (map f xs) = Inr ys \<longleftrightarrow> list_all2 (\<lambda>x y. f x = Inr y) xs ys"
  using sequence_err_Inr_D sequence_err_Inr_I by blast

lemma astype_cell_idem:
  "astype_cell fmt flt t v = Inr w \<Longrightarrow> astype_cell fmt flt t w = Inr w"
  by (cases t; cases v) (auto split: option.splits)

lemma rows_set_column:
  "length vs = length (rows df) \<Longrightarrow>
   list_all2 (\<lambda>ir ir'. fst ir' = fst ir \<and> (\<exists>v. snd ir' = (snd ir)(col := v)))
     (rows df) (rows (set_column df col vs))"
  by (auto simp: set_column_def list_all2_conv_all_nth)

lemma astype_column:
  assumes "get_column df col = Inr vs" and "astype fmt flt t vs = Inr ws"
  shows "list_all2 (\<lambda>ir ir'. fst ir' = fst ir \<and> snd ir' = (snd ir)(col := snd ir' col)
            \<and> astype_cell fmt flt t (snd ir col) = Inr (snd ir' col))
     (rows df) (rows (set_column df col ws))"
proof -
  from assms have vs: "vs = map (\<lambda>ir. snd ir col) (rows df)"
    by (auto simp: get_column_def split: if_splits)
  with assms(2) have l2: "list_all2 (\<lambda>ir w. astype_cell fmt flt t (snd ir col) = Inr w) (rows df) ws"
    by (simp add: astype_def sequence_err_Inr comp_def)
  then have len: "length ws = length (rows df)"
    by (simp add: list_all2_lengthD)
  show ?thesis
    using l2 len by (auto simp: set_column_def list_all2_conv_all_nth)
qed

lemma converted_refl: "converted fmt flt [] r r"
  by (simp add: converted_def)

lemma converted_step:
  assumes "keyword_type_map col = Some t"
    and "astype_cell fmt flt t (r col) = Inr w"
    and "converted fmt flt cs (r(col := w)) r'"
  shows "converted fmt flt (col # cs) r r'"
  unfolding converted_def
proof (intro allI)
  fix c
  show "if c \<in> set (col # cs)
        then \<exists>t. keyword_type_map c = Some t \<and> astype_cell fmt flt t (r c) = Inr (r' c)
        else r' c = r c"
  proof (cases "c = col")
    case True
    show ?thesis
    proof (cases "col \<in> set cs")
      case True
      with assms(3) obtain t' where "keyword_type_map col = Some t'"
        "astype_cell fmt flt t' w = Inr (r' col)"
        by (auto simp: converted_def split: if_splits dest!: spec[where x = col])
      with assms(1,2) have "r' col = w"
        using astype_cell_idem[OF assms(2)] by simp
      with assms(1,2) \<open>c = col\<close> show ?thesis by simp
    next
      case False
      with assms(3) have "r' col = w"
        by (auto simp: converted_def dest!: spec[where x = col])
      with assms(1,2) \<open>c = col\<close> show ?thesis by simp
    qed
  next
    case False
    with assms(3) show ?thesis
      by (auto simp: converted_def dest!: spec[where x = c])
  qed
qed

lemma apply_type_conversion_rows:
  "apply_type_conversion fmt flt df cs = Inr df' \<Longrightarrow>
   list_all2 (\<lambda>ir ir'. fst ir' = fst ir \<and> converted fmt flt cs (snd ir) (snd ir'))
     (rows df) (rows df')"
proof (induction cs arbitrary: df)
  case Nil
  then show ?case by (simp add: converted_refl list_all2_refl)
next
  case (Cons col cs)
  from Cons.prems obtain vs t ws where g: "get_column df col = Inr vs"
    and k: "keyword_type_map col = Some t" and a: "astype fmt flt t vs = Inr ws"
    and rest: "apply_type_conversion fmt flt (set_column df col ws) cs = Inr df'"
    by (auto split: sum.splits option.splits)
  have step: "list_all2 (\<lambda>ir ir'. fst ir' = fst ir \<and> snd ir' = (snd ir)(col := snd ir' col)
            \<and> astype_cell fmt flt t (snd ir col) = Inr (snd ir' col))
     (rows df) (rows (set_column df col ws))"
    by (rule astype_column[OF g a])
  have "list_all2 (\<lambda>ir ir'. fst ir' = fst ir \<and> converted fmt flt (col # cs) (snd ir) (snd ir'))
     (rows df) (rows df')"
  proof (rule list_all2_trans[OF _ step Cons.IH[OF rest]])
    fix a b c
    assume 1: "fst b = fst a \<and> snd b = (snd a)(col := snd b col)
        \<and> astype_cell fmt flt t (snd a col) = Inr (snd b col)"
      and 2: "fst c = fst b \<and> converted fmt flt cs (snd b) (snd c)"
    from 1 2 have "converted fmt flt cs ((snd a)(col := snd b col)) (snd c)" by simp
    from converted_step[OF k _ this] 1 2
    show "fst c = fst a \<and> converted fmt flt (col # cs) (snd a) (snd c)" by simp
  qed
  then show ?case .
qed

lemma apply_type_conversion_subset:
  "apply_type_conversion fmt flt df cs = Inr df' \<Longrightarrow> set cs \<subseteq> set (columns df)"
proof (induction cs arbitrary: df)
  case Nil
  then show ?case by simp
next
  case (Cons col cs)
  from Cons.prems obtain vs ws where g: "get_column df col = Inr vs"
    and rest: "apply_type_conversion fmt flt (set_column df col ws) cs = Inr df'"
    by (auto split: sum.splits option.splits)
  from g have col: "col \<in> set (columns df)" by (rule get_column_Inr)
  from Cons.IH[OF rest] col show ?case
    by (simp add: columns_set_column)
qed

lemma apply_type_conversion_catalog:
  "apply_type_conversion fmt flt df cs = Inr df' \<Longrightarrow> c \<in> set cs \<Longrightarrow> keyword_type_map c \<noteq> None"
proof (induction cs arbitrary: df)
  case Nil
  then show ?case by simp
next
  case (Cons col cs)
  from Cons.prems(1) obtain ws where k: "keyword_type_map col \<noteq> None"
    and rest: "apply_type_conversion fmt flt (set_column df col ws) cs = Inr df'"
    by (auto split: sum.splits option.splits)
  from Cons.prems(2) k Cons.IH[OF rest] show ?case
    by auto
qed

lemma cell_lt_Inr: "cell_lt c x = Inr b \<Longrightarrow> b = is_below x c"
  by (cases "(c, x)" rule: cell_lt.cases) (auto simp: is_below_def)

lemma cell_gt_Inr: "cell_gt c x = Inr b \<Longrightarrow> b = is_above x c"
  by (cases "(c, x)" rule: cell_gt.cases) (auto simp: is_above_def)

lemma column_lt_flags:
  assumes "column_lt df col x = Inr flags"
  shows "flags = map (\<lambda>ir. is_below x (snd ir col)) (rows df)"
proof -
  from assms have "list_all2 (\<lambda>ir b. cell_lt (snd ir col) x = Inr b) (rows df) flags"
    by (auto simp: column_lt_def get_column_def sequence_err_Inr list_all2_map1
        split: sum.splits if_splits)
  then have "list_all2 (\<lambda>ir b. b = is_below x (snd ir col)) (rows df) flags"
    by (rule list_all2_mono) (simp add: cell_lt_Inr)
  then show ?thesis
    by (simp add: list_all2_conv_all_nth list_eq_iff_nth_eq)
qed

lemma column_gt_flags:
  assumes "column_gt df col x = Inr flags"
  shows "flags = map (\<lambda>ir. is_above x (snd ir col)) (rows df)"
proof -
  from assms have "list_all2 (\<lambda>ir b. cell_gt (snd ir col) x = Inr b) (rows df) flags"
    by (auto simp: column_gt_def get_column_def sequence_err_Inr list_all2_map1
        split: sum.splits if_splits)
  then have "list_all2 (\<lambda>ir b. b = is_above x (snd ir col)) (rows df) flags"
    by (rule list_all2_mono) (simp add: cell_gt_Inr)
  then show ?thesis
    by (simp add: list_all2_conv_all_nth list_eq_iff_nth_eq)
qed

lemma rows_set_rows_nan:
  "rows (set_rows_nan df (map p (rows df)))
     = map (\<lambda>ir. if p ir then (fst ir, (\<lambda>_. Flt NaN)) else ir) (rows df)"
  by (simp add: set_rows_nan_def zip_map2 zip_same_conv_map comp_def)

lemma violates_nan_row: "\<not> violates c (\<lambda>_. Flt NaN)"
  by (simp add: violates_def is_below_def is_above_def split: option.splits)

lemma out_of_range_nan_row: "\<not> out_of_range cs (\<lambda>_. Flt NaN)"
  by (simp add: out_of_range_def list_ex_iff violates_nan_row)

lemma limit_row_Cons:
  "limit_row cs (if violates col (snd ir) then (fst ir, (\<lambda>_. Flt NaN)) else ir)
     = limit_row (col # cs) ir"
  by (simp add: limit_row_def out_of_range_def violates_nan_row list_ex_iff)

lemma apply_limits_rows:
  "apply_limits df cs = Inr df' \<Longrightarrow> rows df' = map (limit_row cs) (rows df)"
proof (induction cs arbitrary: df)
  case Nil
  then show ?case by (simp add: limit_row_def out_of_range_def)
next
  case (Cons col cs)
  show ?case
  proof (cases "value_limits col")
    case None
    with Cons.prems have "apply_limits df cs = Inr df'" by simp
    from Cons.IH[OF this] have "rows df' = map (limit_row cs) (rows df)" .
    moreover have "limit_row (col # cs) = limit_row cs"
      using None by (auto simp: limit_row_def out_of_range_def violates_def fun_eq_iff)
    ultimately show ?thesis by simp
  next
    case (Some lh)
    obtain lo hi where lh: "lh = (lo, hi)" by (cases lh)
    from Cons.prems Some lh obtain lows highs where
      lt: "column_lt df col lo = Inr lows"
      and gt: "column_gt (set_rows_nan df lows) col hi = Inr highs"
      and rest: "apply_limits (set_rows_nan (set_rows_nan df lows) highs) cs = Inr df'"
      by (auto split: sum.splits)
    let ?df1 = "set_rows_nan df lows"
    let ?df2 = "set_rows_nan ?df1 highs"
    have r1: "rows ?df1
        = map (\<lambda>ir. if is_below lo (snd ir col) then (fst ir, (\<lambda>_. Flt NaN)) else ir) (rows df)"
      using column_lt_flags[OF lt] rows_set_rows_nan[of df "\<lambda>ir. is_below lo (snd ir col)"]
      by simp
    have r2: "rows ?df2
        = map (\<lambda>ir. if is_above hi (snd ir col) then (fst ir, (\<lambda>_. Flt NaN)) else ir) (rows ?df1)"
      using column_gt_flags[OF gt] rows_set_rows_nan[of ?df1 "\<lambda>ir. is_above hi (snd ir col)"]
      by simp
    have "rows ?df2
        = map (\<lambda>ir. if violates col (snd ir) then (fst ir, (\<lambda>_. Flt NaN)) else ir) (rows df)"
      unfolding r2 r1 using Some lh
      by (auto simp: violates_def is_above_def is_below_def)
    with Cons.IH[OF rest] show ?thesis
      by (simp add: limit_row_Cons comp_def)
  qed
qed

lemma column_lt_Inr: "column_lt df col x = Inr bs \<Longrightarrow> col \<in> set (columns df)"
  by (auto simp: column_lt_def split: sum.splits dest: get_column_Inr)

lemma list_all2_set2: "list_all2 P xs ys \<Longrightarrow> y \<in> set ys \<Longrightarrow> \<exists>x \<in> set xs. P x y"
  by (induction xs ys rule: list_all2_induct) auto

lemma complete_row_nan_row: "cs \<noteq> [] \<Longrightarrow> \<not> complete_row cs (\<lambda>_. Flt NaN)"
  by (cases cs) (simp_all add: complete_row_def isna_def)

text \<open>Where a row of the cleaned frame comes from.\<close>

lemma sanitize_provenance:
  assumes "sanitize fmt flt df cols = Inr out" and "ir' \<in> set (rows out)"
  shows "\<exists>ir \<in> set (rows df). fst ir = fst ir'
      \<and> complete_row (columns df) (contains_error fmt \<circ> snd ir)
      \<and> converted fmt flt cols (contains_error fmt \<circ> snd ir) (snd ir')
      \<and> \<not> out_of_range cols (snd ir')
      \<and> complete_row (columns df) (snd ir')"
proof -
  let ?tagged = "dropna (applymap (contains_error fmt) df)"
  from assms(1) obtain typed limited where
    t: "apply_type_conversion fmt flt ?tagged cols = Inr typed"
    and l: "apply_limits typed cols = Inr limited"
    and out: "out = dropna limited"
    by (auto simp: sanitize_def split: sum.splits)
  have cols_typed: "columns typed = columns df"
    using apply_type_conversion_columns[OF t] by (simp add: columns_dropna columns_applymap)
  have cols_limited: "columns limited = columns df"
    using apply_limits_columns[OF l] cols_typed by simp
  have sub: "set cols \<subseteq> set (columns df)"
    using apply_type_conversion_subset[OF t] by (simp add: columns_dropna columns_applymap)
  from assms(2) out cols_limited obtain tr where tr: "tr \<in> set (rows typed)"
    and ir': "ir' = limit_row cols tr" and compl: "complete_row (columns df) (snd ir')"
    by (auto simp: dropna_def apply_limits_rows[OF l])
  have inr: "\<not> out_of_range cols (snd tr)"
  proof
    assume v: "out_of_range cols (snd tr)"
    then have "cols \<noteq> []" by (auto simp: out_of_range_def)
    with sub have "columns df \<noteq> []" by auto
    with v ir' compl show False
      by (simp add: limit_row_def complete_row_nan_row)
  qed
  then have eq: "ir' = tr" using ir' by (simp add: limit_row_def)
  from list_all2_set2[OF apply_type_conversion_rows[OF t] tr]
  obtain ir2 where ir2: "ir2 \<in> set (rows ?tagged)" "fst tr = fst ir2"
    "converted fmt flt cols (snd ir2) (snd tr)" by auto
  from ir2(1) obtain ir where "ir \<in> set (rows df)" "ir2 = (fst ir, contains_error fmt \<circ> snd ir)"
    "complete_row (columns df) (contains_error fmt \<circ> snd ir)"
    by (auto simp: dropna_def applymap_def apsnd_def map_prod_def split_beta)
  with ir2 eq inr compl show ?thesis by auto
qed

lemma limits_are_float:
  "value_limits c = Some lh \<Longrightarrow> keyword_type_map c = Some Float64"
  by (auto simp: value_limits_def keyword_type_map_def split: if_splits)

lemma contains_error_present:
  "\<not> isna (contains_error fmt v) \<Longrightarrow> \<not> has_error fmt v \<and> contains_error fmt v = v"
  by (auto simp: contains_error_def isna_def has_error_def)

lemma complete_rowD: "complete_row cs r \<Longrightarrow> c \<in> set cs \<Longrightarrow> \<not> isna (r c)"
  by (simp add: complete_row_def list_all_iff)

lemma astype_float_is_float:
  "astype_cell fmt flt Float64 v = Inr w \<Longrightarrow> \<exists>x. w = Flt x"
  by (cases v) (auto split: option.splits)

lemma read_selected_labels:
  assumes "read_selected (Csv t) cols = Inr df"
  shows "labels df = [0 ..< length (csv_lines t)] \<and> distinct (labels df)"
proof -
  from assms have "rows df = map (apsnd (restrict_row cols)) (rows (read_csv t))"
    by (auto simp: read_selected_def select_columns_def split: list.splits)
  then have "labels df = [0 ..< length (csv_lines t)]"
    by (simp add: labels_def read_csv_def comp_def)
  then show ?thesis
    by simp
qed

text \<open>
  C1. Let the five steps return a frame for a batch, and let a selected column have the
  limits \<open>lo\<close> and \<open>hi\<close>. Then every row of the result holds a number between \<open>lo\<close>
  and \<open>hi\<close> in that column; and a row of the batch whose cell in that column reads,
  as a float64, as a number below \<open>lo\<close> or above \<open>hi\<close> is not in the result: its label
  is gone, which is the whole row. (The labels of a batch that \<^verbatim>\<open>read_csv\<close> made are
  distinct: \<open>read_selected_labels\<close>.)
\<close>

theorem range_enforcement:
  assumes "sanitize fmt flt df col_of_interest = Inr out"
    and "c \<in> set col_of_interest" and "value_limits c = Some (lo, hi)"
  shows "(\<forall>ir \<in> set (rows out). \<exists>v. snd ir c = Flt (Fin v) \<and> lo \<le> v \<and> v \<le> hi)
    \<and> (distinct (labels df) \<longrightarrow>
         (\<forall>ir \<in> set (rows df). \<forall>v.
            astype_cell fmt flt Float64 (snd ir c) = Inr (Flt (Fin v)) \<and> (v < lo \<or> hi < v)
            \<longrightarrow> fst ir \<notin> set (labels out)))"
proof -
  have sub: "c \<in> set (columns df)"
    using assms(1,2) apply_type_conversion_subset
    by (fastforce simp: sanitize_def columns_dropna columns_applymap split: sum.splits)
  have kt: "keyword_type_map c = Some Float64"
    using assms(3) by (rule limits_are_float)
  have survivors: "\<exists>v. snd ir' c = Flt (Fin v) \<and> lo \<le> v \<and> v \<le> hi
      \<and> (\<exists>ir \<in> set (rows df). fst ir = fst ir'
           \<and> astype_cell fmt flt Float64 (snd ir c) = Inr (snd ir' c))"
    if "ir' \<in> set (rows out)" for ir'
  proof -
    from sanitize_provenance[OF assms(1) that] obtain ir where ir: "ir \<in> set (rows df)"
      "fst ir = fst ir'" "complete_row (columns df) (contains_error fmt \<circ> snd ir)"
      "converted fmt flt col_of_interest (contains_error fmt \<circ> snd ir) (snd ir')"
      "\<not> out_of_range col_of_interest (snd ir')" "complete_row (columns df) (snd ir')"
      by blast
    from complete_rowD[OF ir(3) sub] have same: "contains_error fmt (snd ir c) = snd ir c"
      using contains_error_present by simp
    from ir(4) assms(2) kt same
    have conv: "astype_cell fmt flt Float64 (snd ir c) = Inr (snd ir' c)"
      by (auto simp: converted_def dest!: spec[where x = c])
    from astype_float_is_float[OF conv] have "\<exists>x. snd ir' c = Flt x" .
    then obtain x where x: "snd ir' c = Flt x" ..
    moreover from complete_rowD[OF ir(6) sub] x have "x \<noteq> NaN"
      by (auto simp: isna_def)
    ultimately obtain v where v: "snd ir' c = Flt (Fin v)"
      by (cases x) auto
    from ir(5) assms(2,3) have "\<not> violates c (snd ir')"
      by (auto simp: out_of_range_def list_ex_iff)
    with v assms(3) have "lo \<le> v \<and> v \<le> hi"
      by (auto simp: violates_def is_below_def is_above_def)
    with v conv ir(1,2) show ?thesis by auto
  qed
  show ?thesis
  proof (intro conjI ballI allI impI)
    fix ir' assume "ir' \<in> set (rows out)"
    from survivors[OF this] show "\<exists>v. snd ir' c = Flt (Fin v) \<and> lo \<le> v \<and> v \<le> hi" by blast
  next
    fix ir v
    assume d: "distinct (labels df)" and ir: "ir \<in> set (rows df)"
      and h: "astype_cell fmt flt Float64 (snd ir c) = Inr (Flt (Fin v)) \<and> (v < lo \<or> hi < v)"
    show "fst ir \<notin> set (labels out)"
    proof
      assume "fst ir \<in> set (labels out)"
      then obtain ir' where ir': "ir' \<in> set (rows out)" "fst ir' = fst ir"
        by (auto simp: labels_def)
      from survivors[OF ir'(1)] obtain w ir0 where w: "snd ir' c = Flt (Fin w)" "lo \<le> w" "w \<le> hi"
        and ir0: "ir0 \<in> set (rows df)" "fst ir0 = fst ir'"
          "astype_cell fmt flt Float64 (snd ir0 c) = Inr (snd ir' c)"
        by blast
      from d ir ir0(1,2) ir'(2) have "ir0 = ir"
        by (auto simp: labels_def distinct_map inj_on_def)
      with ir0(3) h w show False by auto
    qed
  qed
qed

theorem range_enforcement_witness:
  "cells day1_frame
     = [[Str ''10.0'', Str ''20230615'', Str ''093000''],
        [Str ''20.0'', Str ''20230615'', Str ''094500''],
        [Str ''80.0'', Str ''20230615'', Str ''093000''],
        [Str ''err_timeout'', Str ''20230615'', Str ''093000'']]
   \<and> labels day1_frame = [0, 1, 2, 3]
   \<and> sanitize example_format example_float day1_frame example_columns = Inr day1_clean
   \<and> value_limits ''AEZ-P_SUM'' = Some (5, 75)
   \<and> cells day1_clean
     = [[Flt (Fin 10), Str ''20230615'', Str ''093000''],
        [Flt (Fin 20), Str ''20230615'', Str ''094500'']]
   \<and> list_all (\<lambda>ir. \<exists>v. snd ir ''AEZ-P_SUM'' = Flt (Fin v) \<and> 5 \<le> v \<and> v \<le> 75)
        (rows day1_clean)
   \<and> 2 \<notin> set (labels day1_clean)"
proof -
  have ok: "\<not> isl (sanitize example_format example_float day1_frame example_columns)"
    by code_simp
  then have run: "sanitize example_format example_float day1_frame example_columns
      = Inr day1_clean"
    by (simp add: day1_clean_def)
  have c: "''AEZ-P_SUM'' \<in> set example_columns"
    by (simp add: example_columns_def)
  have lim: "value_limits ''AEZ-P_SUM'' = Some (5, 75)"
    by (simp add: value_limits_def)
  have raw: "cells day1_frame
     = [[Str ''10.0'', Str ''20230615'', Str ''093000''],
        [Str ''20.0'', Str ''20230615'', Str ''094500''],
        [Str ''80.0'', Str ''20230615'', Str ''093000''],
        [Str ''err_timeout'', Str ''20230615'', Str ''093000'']]"
    by code_simp
  have lab: "labels day1_frame = [0, 1, 2, 3]"
    by code_simp
  have table: "cells day1_clean
     = [[Flt (Fin 10), Str ''20230615'', Str ''093000''],
        [Flt (Fin 20), Str ''20230615'', Str ''094500'']]"
    by code_simp
  have third: "rows day1_frame ! 2 \<in> set (rows day1_frame)"
    using lab by (intro nth_mem) (simp add: labels_def flip: length_map[of fst])
  have label: "fst (rows day1_frame ! 2) = 2"
    by code_simp
  have high: "astype_cell example_format example_float Float64
      (snd (rows day1_frame ! 2) ''AEZ-P_SUM'') = Inr (Flt (Fin 80))"
    by code_simp
  from range_enforcement[OF run c lim] lab third label high
  have "list_all (\<lambda>ir. \<exists>v. snd ir ''AEZ-P_SUM'' = Flt (Fin v) \<and> 5 \<le> v \<and> v \<le> 75)
        (rows day1_clean)" and "2 \<notin> set (labels day1_clean)"
    by (auto simp: list_all_iff)
  with raw lab run lim table show ?thesis
    by simp
qed

text \<open>
  C2. Let the five steps return a frame for a batch with distinct labels. A row of the
  batch with a cell, in any column of the batch, whose text contains \<^verbatim>\<open>err\<close> is not in
  the result. The error tagging itself keeps the labels of the batch and every cell whose
  text does not contain \<^verbatim>\<open>err\<close>.
\<close>

theorem error_marker_elimination:
  assumes "sanitize fmt flt df col_of_interest = Inr out"
  shows "(distinct (labels df) \<longrightarrow>
          (\<forall>ir \<in> set (rows df). \<forall>c \<in> set (columns df).
             has_error fmt (snd ir c) \<longrightarrow> fst ir \<notin> set (labels out)))
    \<and> labels (applymap (contains_error fmt) df) = labels df
    \<and> (\<forall>k < length (rows df). \<forall>c. \<not> has_error fmt (snd (rows df ! k) c) \<longrightarrow>
          snd (rows (applymap (contains_error fmt) df) ! k) c = snd (rows df ! k) c)"
proof (intro conjI ballI allI impI)
  fix ir c
  assume d: "distinct (labels df)" and ir: "ir \<in> set (rows df)" and c: "c \<in> set (columns df)"
    and h: "has_error fmt (snd ir c)"
  show "fst ir \<notin> set (labels out)"
  proof
    assume "fst ir \<in> set (labels out)"
    then obtain ir' where ir': "ir' \<in> set (rows out)" "fst ir' = fst ir"
      by (auto simp: labels_def)
    from sanitize_provenance[OF assms ir'(1)] obtain ir0 where ir0: "ir0 \<in> set (rows df)"
      "fst ir0 = fst ir'" "complete_row (columns df) (contains_error fmt \<circ> snd ir0)"
      by blast
    from d ir ir0(1,2) ir'(2) have "ir0 = ir"
      by (auto simp: labels_def distinct_map inj_on_def)
    with complete_rowD[OF ir0(3) c] h show False
      using contains_error_present by auto
  qed
next
  show "labels (applymap (contains_error fmt) df) = labels df"
    by (simp add: labels_def applymap_def comp_def)
next
  fix k c
  assume "k < length (rows df)" and "\<not> has_error fmt (snd (rows df ! k) c)"
  then show "snd (rows (applymap (contains_error fmt) df) ! k) c = snd (rows df ! k) c"
    by (simp add: applymap_def contains_error_def has_error_def)
qed

theorem error_marker_elimination_witness:
  "sanitize example_format example_float day1_frame example_columns = Inr day1_clean
   \<and> labels day1_frame = [0, 1, 2, 3]
   \<and> snd (rows day1_frame ! 3) ''AEZ-P_SUM'' = Str ''err_timeout''
   \<and> has_error example_format (snd (rows day1_frame ! 3) ''AEZ-P_SUM'')
   \<and> 3 \<notin> set (labels day1_clean)
   \<and> \<not> has_error example_format (snd (rows day1_frame ! 0) ''AEZ-P_SUM'')
   \<and> snd (rows (applymap (contains_error example_format) day1_frame) ! 0) ''AEZ-P_SUM''
       = snd (rows day1_frame ! 0) ''AEZ-P_SUM''"
proof -
  have ok: "\<not> isl (sanitize example_format example_float day1_frame example_columns)"
    by code_simp
  then have run: "sanitize example_format example_float day1_frame example_columns
      = Inr day1_clean"
    by (simp add: day1_clean_def)
  have lab: "labels day1_frame = [0, 1, 2, 3]"
    by code_simp
  then have len: "length (rows day1_frame) = 4"
    by (simp add: labels_def flip: length_map[of fst])
  have c: "''AEZ-P_SUM'' \<in> set (columns day1_frame)"
    by code_simp
  have fourth: "rows day1_frame ! 3 \<in> set (rows day1_frame)"
    using len by (intro nth_mem) simp
  have label: "fst (rows day1_frame ! 3) = 3"
    by code_simp
  have cell: "snd (rows day1_frame ! 3) ''AEZ-P_SUM'' = Str ''err_timeout''"
    by code_simp
  have err: "has_error example_format (snd (rows day1_frame ! 3) ''AEZ-P_SUM'')"
    by code_simp
  have good: "\<not> has_error example_format (snd (rows day1_frame ! 0) ''AEZ-P_SUM'')"
    by code_simp
  from error_marker_elimination[OF run] lab len c fourth label err good
  have "3 \<notin> set (labels day1_clean)"
    and "snd (rows (applymap (contains_error example_format) day1_frame) ! 0) ''AEZ-P_SUM''
       = snd (rows day1_frame ! 0) ''AEZ-P_SUM''"
    by auto
  with run lab cell err good show ?thesis
    by simp
qed











section \<open>Time columns and hourly means\<close>







lemma astype_float_time_value:
  assumes "astype_cell fmt flt Float64
      (case r src of Str s \<Rightarrow> Str (slice a b s) | Flt _ \<Rightarrow> Flt NaN) = Inr w"
  shows "w = time_value flt src a b r"
  using assms by (cases "r src") (auto simp: time_value_def split: option.splits)

lemma time_column_Inr:
  assumes "time_column fmt flt df dst src a b = Inr out"
  shows "src \<in> set (columns df)
     \<and> columns out = add_columns (columns df) [dst]
     \<and> rows out = map (add_time_value flt dst src a b) (rows df)"
proof -
  let ?vs = "map (\<lambda>ir. snd ir src) (rows df)"
  let ?ss = "map (\<lambda>v. case v of Str s \<Rightarrow> Str (slice a b s) | Flt _ \<Rightarrow> Flt NaN) ?vs"
  from assms obtain ws where src: "src \<in> set (columns df)"
    and a: "astype fmt flt Float64 ?ss = Inr ws" and out: "out = set_column df dst ws"
    by (auto simp: time_column_def get_column_def str_slice_def split: if_splits sum.splits)
  from a have "list_all2 (\<lambda>ir w. astype_cell fmt flt Float64
      (case snd ir src of Str s \<Rightarrow> Str (slice a b s) | Flt _ \<Rightarrow> Flt NaN) = Inr w) (rows df) ws"
    by (simp add: astype_def sequence_err_Inr list_all2_map1)
  then have "list_all2 (\<lambda>ir w. w = time_value flt src a b (snd ir)) (rows df) ws"
    by (rule list_all2_mono) (simp add: astype_float_time_value)
  then have "ws = map (\<lambda>ir. time_value flt src a b (snd ir)) (rows df)"
    by (simp add: list_all2_conv_all_nth list_eq_iff_nth_eq)
  with out have "rows out = map (add_time_value flt dst src a b) (rows df)"
    by (simp add: set_column_def zip_map2 zip_same_conv_map comp_def add_time_value_def)
  with src out show ?thesis
    by (simp add: set_column_def add_columns_def)
qed

lemma add_time_columns_Inr:
  assumes "add_time_columns fmt flt df = Inr out"
  shows "columns out = add_columns (columns df) [''Month'', ''Day'', ''Hour'']
     \<and> rows out = map (timed_row flt) (rows df)"
proof -
  from assms obtain df1 df2 where
    1: "time_column fmt flt df ''Month'' ''YYYYMMDD'' 4 6 = Inr df1"
    and 2: "time_column fmt flt df1 ''Day'' ''YYYYMMDD'' 6 8 = Inr df2"
    and 3: "time_column fmt flt df2 ''Hour'' ''hhmmss'' 0 2 = Inr out"
    by (auto simp: add_time_columns_def split: sum.splits)
  from time_column_Inr[OF 1] time_column_Inr[OF 2] time_column_Inr[OF 3]
  show ?thesis
    by (simp add: add_columns_def timed_row_def comp_def)
qed







lemma groupby_mean_Inr:
  assumes "groupby_mean numeric df = Inr out"
  shows "rows out = enumerate 0 (map (group_row
            (filter (\<lambda>c. c \<noteq> ''Hour'' \<and> c \<noteq> ''YYYYMMDD'' \<and> numeric c) (columns df))
            (map snd (rows df)))
          (sort (remdups (List.map_filter group_key (map snd (rows df))))))
    \<and> columns out = [''Hour'', ''YYYYMMDD'']
        @ filter (\<lambda>c. c \<noteq> ''Hour'' \<and> c \<noteq> ''YYYYMMDD'' \<and> numeric c) (columns df)"
  using assms by (auto simp: groupby_mean_def Let_def split: if_splits)










lemma clean_file_sanitized:
  assumes "clean_file fmt flt cols f = Inr cleaned"
  shows "\<exists>df. sanitize fmt flt df cols = Inr cleaned \<and> columns df = cols
      \<and> (\<forall>c \<in> set cols. keyword_type_map c \<noteq> None)"
proof -
  from assms obtain df where r: "read_selected f cols = Inr df"
    and s: "sanitize fmt flt df cols = Inr cleaned"
    by (auto simp: clean_file_def split: sum.splits)
  from r have c: "columns df = cols"
    by (auto simp: read_selected_def split: file_content.splits dest: select_columns_columns)
  from s obtain typed where
    "apply_type_conversion fmt flt (dropna (applymap (contains_error fmt) df)) cols = Inr typed"
    by (auto simp: sanitize_def split: sum.splits)
  from apply_type_conversion_catalog[OF this] s c show ?thesis
    by blast
qed

lemma clean_file_no_time_columns:
  assumes "clean_file fmt flt cols f = Inr cleaned"
  shows "''Month'' \<notin> set (columns cleaned) \<and> ''Day'' \<notin> set (columns cleaned)
     \<and> ''Hour'' \<notin> set (columns cleaned)"
proof -
  from clean_file_sanitized[OF assms] clean_file_columns[OF assms]
  have "\<forall>c \<in> set (columns cleaned). keyword_type_map c \<noteq> None"
    by auto
  moreover have "keyword_type_map ''Month'' = None" "keyword_type_map ''Day'' = None"
    "keyword_type_map ''Hour'' = None"
    by (simp_all add: keyword_type_map_def)
  ultimately show ?thesis
    by auto
qed




section \<open>Files, directories and their order\<close>

lemma load_loop_Inr:
  "snd (load_loop body listing opened big) = Inr out \<Longrightarrow>
   \<exists>dfs. map body (csv_files listing) = map Inr dfs
      \<and> out = foldl (\<lambda>acc d. pd_concat acc d True) big dfs"
proof (induction listing arbitrary: opened big)
  case Nil
  then show ?case by (simp add: csv_files_def)
next
  case (Cons entry listing)
  obtain filename f where entry: "entry = (filename, f)" by (cases entry)
  show ?case
  proof (cases "endswith filename ''.csv''")
    case False
    with Cons entry show ?thesis by (simp add: csv_files_def)
  next
    case True
    with Cons.prems entry obtain df_tmp where b: "body f = Inr df_tmp"
      and rest: "snd (load_loop body listing (opened @ [filename])
                   (pd_concat big df_tmp True)) = Inr out"
      by (auto split: sum.splits)
    from Cons.IH[OF rest] obtain dfs where "map body (csv_files listing) = map Inr dfs"
      "out = foldl (\<lambda>acc d. pd_concat acc d True) (pd_concat big df_tmp True) dfs"
      by blast
    with b True entry show ?thesis
      by (intro exI[of _ "df_tmp # dfs"]) (simp add: csv_files_def)
  qed
qed

lemma restrict_row_cells: "map (restrict_row cs r) cs = map r cs"
  by (simp add: restrict_row_def)

lemma cells_pd_concat:
  assumes "empty_or cs a" and "empty_or cs b"
  shows "empty_or cs (pd_concat a b ig) \<and> cells (pd_concat a b ig) = cells a @ cells b"
proof -
  have rs: "map snd (rows (pd_concat a b ig))
      = map (restrict_row (columns a) \<circ> snd) (rows a)
        @ map (restrict_row (columns b) \<circ> snd) (rows b)"
    by (simp add: pd_concat_def Let_def comp_def)
  have cs: "columns (pd_concat a b ig)
      = columns a @ filter (\<lambda>c. c \<notin> set (columns a)) (columns b)"
    by (simp add: pd_concat_def Let_def)
  have none: "rows (pd_concat a b ig) = [] \<longleftrightarrow> rows a = [] \<and> rows b = []"
    using arg_cong[OF rs, of length] by (simp flip: length_0_conv)
  have cells: "cells df = map (\<lambda>r. map r (columns df)) (map snd (rows df))" for df
    by (simp add: cells_def comp_def)
  consider (a_empty) "columns a = []" "rows a = []"
    | (b_empty) "columns a = cs" "columns b = []" "rows b = []"
    | (both) "columns a = cs" "columns b = cs"
    using assms by (auto simp: empty_or_def)
  then show ?thesis
  proof cases
    case a_empty
    with assms(2) have "empty_or cs (pd_concat a b ig)"
      by (auto simp: empty_or_def cs none)
    moreover from a_empty have "cells (pd_concat a b ig) = cells a @ cells b"
      unfolding cells[of "pd_concat a b ig"] rs cs
      by (simp add: cells restrict_row_cells)
    ultimately show ?thesis ..
  next
    case b_empty
    then have "empty_or cs (pd_concat a b ig)"
      by (auto simp: empty_or_def cs none)
    moreover from b_empty have "cells (pd_concat a b ig) = cells a @ cells b"
      unfolding cells[of "pd_concat a b ig"] rs cs
      by (simp add: cells restrict_row_cells)
    ultimately show ?thesis ..
  next
    case both
    then have "empty_or cs (pd_concat a b ig)"
      by (auto simp: empty_or_def cs none)
    moreover from both have "cells (pd_concat a b ig) = cells a @ cells b"
      unfolding cells[of "pd_concat a b ig"] rs cs
      by (simp add: cells restrict_row_cells)
    ultimately show ?thesis ..
  qed
qed

lemma cells_foldl_concat:
  assumes "\<forall>d \<in> set dfs. empty_or cs d"
  shows "empty_or cs big \<Longrightarrow>
     empty_or cs (foldl (\<lambda>acc d. pd_concat acc d ig) big dfs)
     \<and> cells (foldl (\<lambda>acc d. pd_concat acc d ig) big dfs) = cells big @ concat (map cells dfs)"
  using assms
proof (induction dfs arbitrary: big)
  case Nil
  then show ?case by simp
next
  case (Cons d dfs)
  from Cons.prems have "empty_or cs (pd_concat big d ig)"
    and c: "cells (pd_concat big d ig) = cells big @ cells d"
    using cells_pd_concat[of cs big d ig] by auto
  from Cons.IH[OF this(1)] Cons.prems(2) c show ?case
    by simp
qed

lemma labels_pd_concat_ignore:
  "labels (pd_concat a b True) = [0 ..< length (rows a) + length (rows b)]"
  by (simp add: pd_concat_def Let_def labels_def)

lemma labels_pd_concat_keep:
  "labels (pd_concat a b False) = labels a @ labels b"
  by (simp add: pd_concat_def Let_def labels_def comp_def)

lemma clean_file_average_hours_columns:
  assumes "clean_file_average_hours fmt flt cols f = Inr d"
  shows "columns d = hourly_columns cols"
proof -
  from assms obtain cb timed where c: "clean_file fmt flt cols f = Inr cb"
    and t: "add_time_columns fmt flt cb = Inr timed"
    and g: "groupby_mean float_column timed = Inr d"
    by (auto simp: clean_file_average_hours_def average_hours_def split: sum.splits)
  from clean_file_columns[OF c] add_time_columns_Inr[OF t] groupby_mean_Inr[OF g]
  show ?thesis
    by (simp add: hourly_columns_def)
qed

lemma map_eq_map_Inr_set:
  "map f xs = map Inr ys \<Longrightarrow> y \<in> set ys \<Longrightarrow> \<exists>x \<in> set xs. f x = Inr y"
  by (induction xs arbitrary: ys) auto

lemma load_average_hours_Inr:
  assumes "snd (load_dataset_from_directory_partial_average_hours fmt flt fs d cols) = Inr big_df"
  shows "\<exists>listing dfs. fs d = Some listing
     \<and> map (clean_file_average_hours fmt flt cols) (csv_files listing) = map Inr dfs
     \<and> empty_or (hourly_columns cols) big_df
     \<and> cells big_df = concat (map cells dfs)"
proof -
  from assms obtain listing where l: "fs d = Some listing"
    and run: "snd (load_loop (clean_file_average_hours fmt flt cols) listing [] DataFrame)
      = Inr big_df"
    by (auto simp: load_dataset_from_directory_partial_average_hours_def split: option.splits)
  from load_loop_Inr[OF run] obtain dfs where
    dfs: "map (clean_file_average_hours fmt flt cols) (csv_files listing) = map Inr dfs"
    and big: "big_df = foldl (\<lambda>acc d. pd_concat acc d True) DataFrame dfs"
    by blast
  have "\<forall>d \<in> set dfs. empty_or (hourly_columns cols) d"
    using map_eq_map_Inr_set[OF dfs] clean_file_average_hours_columns
    by (fastforce simp: empty_or_def)
  moreover have "empty_or (hourly_columns cols) DataFrame"
    by (simp add: empty_or_def DataFrame_def)
  ultimately have "empty_or (hourly_columns cols) big_df
     \<and> cells big_df = cells DataFrame @ concat (map cells dfs)"
    unfolding big by (intro cells_foldl_concat)
  with l dfs show ?thesis
    by (auto simp: cells_def DataFrame_def)
qed

lemma load_multiple_loop_Inr:
  "load_multiple_loop fmt flt fs cols ds df_ret = Inr out \<longleftrightarrow>
   (\<exists>dfs. map (\<lambda>d. snd (load_dataset_from_directory_partial_average_hours fmt flt fs d cols)) ds
        = map Inr dfs
      \<and> out = foldl (\<lambda>acc d. pd_concat acc d False) df_ret dfs)"
proof (induction ds arbitrary: df_ret)
  case Nil
  then show ?case by auto
next
  case (Cons d ds)
  show ?case
  proof (cases "snd (load_dataset_from_directory_partial_average_hours fmt flt fs d cols)")
    case (Inl e)
    then show ?thesis by auto
  next
    case (Inr df_tmp)
    show ?thesis
    proof
      assume "load_multiple_loop fmt flt fs cols (d # ds) df_ret = Inr out"
      with Inr Cons.IH[of "pd_concat df_ret df_tmp False"] obtain dfs where
        "map (\<lambda>d. snd (load_dataset_from_directory_partial_average_hours fmt flt fs d cols)) ds
          = map Inr dfs" "out = foldl (\<lambda>acc d. pd_concat acc d False) (pd_concat df_ret df_tmp False) dfs"
        by auto
      with Inr show "\<exists>dfs. map (\<lambda>d. snd (load_dataset_from_directory_partial_average_hours fmt flt fs d cols)) (d # ds)
        = map Inr dfs \<and> out = foldl (\<lambda>acc d. pd_concat acc d False) df_ret dfs"
        by (intro exI[of _ "df_tmp # dfs"]) simp
    next
      assume "\<exists>dfs. map (\<lambda>d. snd (load_dataset_from_directory_partial_average_hours fmt flt fs d cols)) (d # ds)
        = map Inr dfs \<and> out = foldl (\<lambda>acc d. pd_concat acc d False) df_ret dfs"
      then obtain dfs where m: "map (\<lambda>d. snd (load_dataset_from_directory_partial_average_hours fmt flt fs d cols)) (d # ds)
        = map Inr dfs" and o: "out = foldl (\<lambda>acc d. pd_concat acc d False) df_ret dfs"
        by blast
      from m Inr obtain rest where dfs: "dfs = df_tmp # rest"
        "map (\<lambda>d. snd (load_dataset_from_directory_partial_average_hours fmt flt fs d cols)) ds
          = map Inr rest"
        by (cases dfs) auto
      with o Inr Cons.IH[of "pd_concat df_ret df_tmp False"]
      show "load_multiple_loop fmt flt fs cols (d # ds) df_ret = Inr out"
        by auto
    qed
  qed
qed

lemma labels_foldl_concat_keep:
  "labels (foldl (\<lambda>acc d. pd_concat acc d False) big dfs) = labels big @ concat (map labels dfs)"
  by (induction dfs arbitrary: big) (simp_all add: labels_pd_concat_keep)

lemma per_directory_frames:
  assumes "map (\<lambda>d. snd (load_dataset_from_directory_partial_average_hours fmt flt fs d cols)) ds
        = map Inr dfs"
  shows "cells (foldl (\<lambda>acc d. pd_concat acc d False) DataFrame dfs) = concat (map cells dfs)
     \<and> labels (foldl (\<lambda>acc d. pd_concat acc d False) DataFrame dfs) = concat (map labels dfs)"
proof -
  have "\<forall>d \<in> set dfs. empty_or (hourly_columns cols) d"
  proof
    fix df assume "df \<in> set dfs"
    from map_eq_map_Inr_set[OF assms this] obtain d where
      "snd (load_dataset_from_directory_partial_average_hours fmt flt fs d cols) = Inr df"
      by blast
    from load_average_hours_Inr[OF this] show "empty_or (hourly_columns cols) df"
      by blast
  qed
  moreover have "empty_or (hourly_columns cols) DataFrame"
    by (simp add: empty_or_def DataFrame_def)
  ultimately have "cells (foldl (\<lambda>acc d. pd_concat acc d False) DataFrame dfs)
      = cells DataFrame @ concat (map cells dfs)"
    using cells_foldl_concat by blast
  moreover have "labels (foldl (\<lambda>acc d. pd_concat acc d False) DataFrame dfs)
      = labels DataFrame @ concat (map labels dfs)"
    by (rule labels_foldl_concat_keep)
  ultimately show ?thesis
    by (simp add: cells_def labels_def DataFrame_def)
qed

text \<open>
  C6. When assembling the directories \<open>ds1\<close> and assembling the directories \<open>ds2\<close> both
  succeed, assembling \<open>ds1 @ ds2\<close> succeeds, and its rows are the rows of the first result
  followed by the rows of the second, cells and labels alike; nothing is removed, so a row
  that both have is there twice.
\<close>

theorem concatenation_order:
  assumes "load_multiple_datasets_average_hours fmt flt fs ds1 cols = Inr a"
    and "load_multiple_datasets_average_hours fmt flt fs ds2 cols = Inr b"
  shows "\<exists>c. load_multiple_datasets_average_hours fmt flt fs (ds1 @ ds2) cols = Inr c
     \<and> cells c = cells a @ cells b \<and> labels c = labels a @ labels b"
proof -
  let ?per = "\<lambda>d. snd (load_dataset_from_directory_partial_average_hours fmt flt fs d cols)"
  let ?cat = "foldl (\<lambda>acc d. pd_concat acc d False) DataFrame"
  from assms(1) obtain dfs1 where 1: "map ?per ds1 = map Inr dfs1" "a = ?cat dfs1"
    by (auto simp: load_multiple_datasets_average_hours_def load_multiple_loop_Inr)
  from assms(2) obtain dfs2 where 2: "map ?per ds2 = map Inr dfs2" "b = ?cat dfs2"
    by (auto simp: load_multiple_datasets_average_hours_def load_multiple_loop_Inr)
  from 1(1) 2(1) have m: "map ?per (ds1 @ ds2) = map Inr (dfs1 @ dfs2)"
    by simp
  then have run: "load_multiple_datasets_average_hours fmt flt fs (ds1 @ ds2) cols
      = Inr (?cat (dfs1 @ dfs2))"
    unfolding load_multiple_datasets_average_hours_def load_multiple_loop_Inr by blast
  from per_directory_frames[OF 1(1)] per_directory_frames[OF 2(1)] per_directory_frames[OF m]
  have "cells (?cat (dfs1 @ dfs2)) = cells a @ cells b"
    "labels (?cat (dfs1 @ dfs2)) = labels a @ labels b"
    unfolding 1(2) 2(2) by simp_all
  with run show ?thesis
    by blast
qed


theorem concatenation_order_witness:
  "\<not> isl (load_multiple_datasets_average_hours example_format example_float example_fs
        [''site_a''] example_columns)
   \<and> \<not> isl (load_multiple_datasets_average_hours example_format example_float example_fs
        [''site_b''] example_columns)
   \<and> \<not> isl (load_multiple_datasets_average_hours example_format example_float example_fs
        [''site_a'', ''site_b''] example_columns)
   \<and> cells (projr (load_multiple_datasets_average_hours example_format example_float
        example_fs [''site_a''] example_columns))
       = [[Flt (Fin 9), Str ''20230615'', Flt (Fin 15), Flt (Fin 6), Flt (Fin 15)],
          [Flt (Fin 9), Str ''20230615'', Flt (Fin 40), Flt (Fin 6), Flt (Fin 15)],
          [Flt (Fin 10), Str ''20230615'', Flt (Fin 50), Flt (Fin 6), Flt (Fin 15)]]
   \<and> cells (projr (load_multiple_datasets_average_hours example_format example_float
        example_fs [''site_b''] example_columns))
       = [[Flt (Fin 9), Str ''20230615'', Flt (Fin 15), Flt (Fin 6), Flt (Fin 15)]]
   \<and> cells (projr (load_multiple_datasets_average_hours example_format example_float
        example_fs [''site_a'', ''site_b''] example_columns))
       = [[Flt (Fin 9), Str ''20230615'', Flt (Fin 15), Flt (Fin 6), Flt (Fin 15)],
          [Flt (Fin 9), Str ''20230615'', Flt (Fin 40), Flt (Fin 6), Flt (Fin 15)],
          [Flt (Fin 10), Str ''20230615'', Flt (Fin 50), Flt (Fin 6), Flt (Fin 15)],
          [Flt (Fin 9), Str ''20230615'', Flt (Fin 15), Flt (Fin 6), Flt (Fin 15)]]
   \<and> labels (projr (load_multiple_datasets_average_hours example_format example_float
        example_fs [''site_a'', ''site_b''] example_columns))
       = [0, 1, 2, 0]"
proof -
  let ?load = "\<lambda>ds. load_multiple_datasets_average_hours example_format example_float
      example_fs ds example_columns"
  have a: "\<not> isl (?load [''site_a''])" and b: "\<not> isl (?load [''site_b''])"
    by code_simp+
  have ca: "cells (projr (?load [''site_a'']))
       = [[Flt (Fin 9), Str ''20230615'', Flt (Fin 15), Flt (Fin 6), Flt (Fin 15)],
          [Flt (Fin 9), Str ''20230615'', Flt (Fin 40), Flt (Fin 6), Flt (Fin 15)],
          [Flt (Fin 10), Str ''20230615'', Flt (Fin 50), Flt (Fin 6), Flt (Fin 15)]]"
    by code_simp
  have cb: "cells (projr (?load [''site_b'']))
       = [[Flt (Fin 9), Str ''20230615'', Flt (Fin 15), Flt (Fin 6), Flt (Fin 15)]]"
    by code_simp
  have la: "labels (projr (?load [''site_a''])) = [0, 1, 2]"
    and lb: "labels (projr (?load [''site_b''])) = [0]"
    by code_simp+
  from a have ra: "?load [''site_a''] = Inr (projr (?load [''site_a'']))"
    by simp
  from b have rb: "?load [''site_b''] = Inr (projr (?load [''site_b'']))"
    by simp
  from concatenation_order[OF ra rb] obtain c where
    "?load [''site_a'', ''site_b''] = Inr c"
    "cells c = cells (projr (?load [''site_a''])) @ cells (projr (?load [''site_b'']))"
    "labels c = labels (projr (?load [''site_a''])) @ labels (projr (?load [''site_b'']))"
    by auto
  with a b ca cb la lb show ?thesis
    by simp
qed

text \<open>
  C10. What the averaging loader returns for a directory is, row for row, what it makes
  of the first \<^verbatim>\<open>.csv\<close> file alone, then what it makes of the second alone, and so on:
  a key that two files share gives two rows, each with the means of its own file. The
  same holds for the directories of the assembler.
\<close>

theorem hourly_averaging_per_file:
  assumes "snd (load_dataset_from_directory_partial_average_hours fmt flt fs d cols) = Inr big_df"
  shows "(\<exists>listing dfs. fs d = Some listing
       \<and> map (clean_file_average_hours fmt flt cols) (csv_files listing) = map Inr dfs
       \<and> cells big_df = concat (map cells dfs))
    \<and> (\<forall>ds out. load_multiple_datasets_average_hours fmt flt fs ds cols = Inr out \<longrightarrow>
         (\<exists>dfs. map (\<lambda>d. snd (load_dataset_from_directory_partial_average_hours fmt flt fs d
                               cols)) ds = map Inr dfs
            \<and> cells out = concat (map cells dfs)))"
proof (intro conjI allI impI)
  from load_average_hours_Inr[OF assms]
  show "\<exists>listing dfs. fs d = Some listing
       \<and> map (clean_file_average_hours fmt flt cols) (csv_files listing) = map Inr dfs
       \<and> cells big_df = concat (map cells dfs)"
    by blast
next
  fix ds out
  assume "load_multiple_datasets_average_hours fmt flt fs ds cols = Inr out"
  then obtain dfs where
    dfs: "map (\<lambda>d. snd (load_dataset_from_directory_partial_average_hours fmt flt fs d cols)) ds
        = map Inr dfs"
    and out: "out = foldl (\<lambda>acc d. pd_concat acc d False) DataFrame dfs"
    by (auto simp: load_multiple_datasets_average_hours_def load_multiple_loop_Inr)
  from per_directory_frames[OF dfs] out
  show "\<exists>dfs. map (\<lambda>d. snd (load_dataset_from_directory_partial_average_hours fmt flt fs d
                               cols)) ds = map Inr dfs
            \<and> cells out = concat (map cells dfs)"
    using dfs by blast
qed


theorem hourly_averaging_per_file_witness:
  "\<not> isl (snd (load_dataset_from_directory_partial_average_hours example_format example_float
        example_fs ''site_a'' example_columns))
   \<and> cells (projr (clean_file_average_hours example_format example_float example_columns
        (Csv day1)))
       = [[Flt (Fin 9), Str ''20230615'', Flt (Fin 15), Flt (Fin 6), Flt (Fin 15)]]
   \<and> cells (projr (clean_file_average_hours example_format example_float example_columns
        (Csv day2)))
       = [[Flt (Fin 9), Str ''20230615'', Flt (Fin 40), Flt (Fin 6), Flt (Fin 15)],
          [Flt (Fin 10), Str ''20230615'', Flt (Fin 50), Flt (Fin 6), Flt (Fin 15)]]
   \<and> cells (projr (snd (load_dataset_from_directory_partial_average_hours example_format
        example_float example_fs ''site_a'' example_columns)))
       = [[Flt (Fin 9), Str ''20230615'', Flt (Fin 15), Flt (Fin 6), Flt (Fin 15)],
          [Flt (Fin 9), Str ''20230615'', Flt (Fin 40), Flt (Fin 6), Flt (Fin 15)],
          [Flt (Fin 10), Str ''20230615'', Flt (Fin 50), Flt (Fin 6), Flt (Fin 15)]]
   \<and> (\<exists>listing dfs. example_fs ''site_a'' = Some listing
       \<and> map (clean_file_average_hours example_format example_float example_columns)
            (csv_files listing) = map Inr dfs
       \<and> cells (projr (snd (load_dataset_from_directory_partial_average_hours example_format
            example_float example_fs ''site_a'' example_columns))) = concat (map cells dfs))"
proof -
  let ?run = "snd (load_dataset_from_directory_partial_average_hours example_format
      example_float example_fs ''site_a'' example_columns)"
  have ok: "\<not> isl ?run"
    by code_simp
  have one: "cells (projr (clean_file_average_hours example_format example_float
        example_columns (Csv day1)))
       = [[Flt (Fin 9), Str ''20230615'', Flt (Fin 15), Flt (Fin 6), Flt (Fin 15)]]"
    by code_simp
  have two: "cells (projr (clean_file_average_hours example_format example_float
        example_columns (Csv day2)))
       = [[Flt (Fin 9), Str ''20230615'', Flt (Fin 40), Flt (Fin 6), Flt (Fin 15)],
          [Flt (Fin 10), Str ''20230615'', Flt (Fin 50), Flt (Fin 6), Flt (Fin 15)]]"
    by code_simp
  have all: "cells (projr ?run)
       = [[Flt (Fin 9), Str ''20230615'', Flt (Fin 15), Flt (Fin 6), Flt (Fin 15)],
          [Flt (Fin 9), Str ''20230615'', Flt (Fin 40), Flt (Fin 6), Flt (Fin 15)],
          [Flt (Fin 10), Str ''20230615'', Flt (Fin 50), Flt (Fin 6), Flt (Fin 15)]]"
    by code_simp
  from ok have "?run = Inr (projr ?run)"
    by simp
  from hourly_averaging_per_file[OF this] ok one two all show ?thesis
    by blast
qed










section \<open>The timestamp conversion\<close>

text \<open>
  C9. \<^verbatim>\<open>convert_timestamp_to_string\<close> evaluates the name \<^verbatim>\<open>datetime\<close>, which the module
  never binds: every call raises \<^verbatim>\<open>NameError\<close>, whatever the timestamp and whatever the
  standard library would print.
\<close>

theorem convert_timestamp_to_string_raises:
  "convert_timestamp_to_string utc_strftime unixtime = Inl (NameError ''datetime'')"
  by (simp add: convert_timestamp_to_string_def module_globals_def)

end
